theory Spec2Isabelle
  imports Complex_Main "HOL-Library.Multiset"
begin

section \<open>JavaScript numbers and \<open>Number(...)\<close> on version components\<close>

text \<open>
  \<open>compareVersion\<close> (CodeGenerateCore.ts, lines 580-595) converts each component of a
  version string with the built-in \<open>Number\<close> and compares the results with \<open>>\<close> and
  \<open><\<close>. A JavaScript number is an IEEE-754 double; for the two relational operators
  only its mathematical value matters, so a number is modelled as \<open>NaN\<close>, one of the two
  infinities, or the rational value of a finite double (\<open>+0\<close> and \<open>-0\<close> are both
  \<open>Num 0\<close>: the operators do not tell them apart).
\<close>

datatype jsnum = NaN | NInf | Num rat | PInf

text \<open>The operator \<open>a < b\<close> on numbers: false as soon as one operand is \<open>NaN\<close>.\<close>

fun js_lt :: "jsnum \<Rightarrow> jsnum \<Rightarrow> bool" where
  "js_lt NaN _ = False"
| "js_lt _ NaN = False"
| "js_lt NInf NInf = False"
| "js_lt NInf _ = True"
| "js_lt (Num a) NInf = False"
| "js_lt (Num a) (Num b) = (a < b)"
| "js_lt (Num a) PInf = True"
| "js_lt PInf _ = False"

text \<open>\<open>a > b\<close> is \<open>b < a\<close> with the operands exchanged.\<close>

definition js_gt :: "jsnum \<Rightarrow> jsnum \<Rightarrow> bool" where
  "js_gt a b = js_lt b a"

subsection \<open>Rounding a mathematical value to a double\<close>

text \<open>
  The value of a numeric string is rounded to the nearest double, ties to the even
  significand, and to an infinity from \<open>2^1024 - 2^970\<close> on. \<open>bitlen n\<close> is the number
  of binary digits of \<open>n\<close>, \<open>ilog2 q\<close> the binary exponent \<open>\<lfloor>log\<^sub>2 q\<rfloor>\<close> of a positive
  rational, \<open>p\<close> the exponent of the unit in the last place (at least \<open>-1074\<close>, the
  subnormal range).
\<close>

function bitlen :: "int \<Rightarrow> nat" where
  "bitlen n = (if n \<le> 0 then 0 else Suc (bitlen (n div 2)))"
  by pat_completeness auto
termination
  by (relation "measure nat") auto

declare bitlen.simps [simp del]

definition pow2 :: "int \<Rightarrow> rat" where
  "pow2 e = (if 0 \<le> e then 2 ^ nat e else 1 / 2 ^ nat (- e))"

definition ilog2 :: "rat \<Rightarrow> int" where
  "ilog2 q = (case quotient_of q of (a, b) \<Rightarrow>
     (let e0 = int (bitlen a) - int (bitlen b)
      in if pow2 e0 \<le> q then e0 else e0 - 1))"

definition roundHalfEven :: "rat \<Rightarrow> int" where
  "roundHalfEven q = (let f = \<lfloor>q\<rfloor>; r = q - of_int f
     in if r < 1 / 2 then f else if 1 / 2 < r then f + 1
        else if even f then f else f + 1)"

definition toDouble :: "rat \<Rightarrow> jsnum" where
  "toDouble q = (if q = 0 then Num 0 else
     (let e = ilog2 q; p = max (e - 52) (- 1074);
          m = roundHalfEven (q / pow2 p); v = of_int m * pow2 p
      in if pow2 1024 \<le> v then PInf else Num v))"

definition negate :: "jsnum \<Rightarrow> jsnum" where
  "negate x = (case x of NaN \<Rightarrow> NaN | NInf \<Rightarrow> PInf | Num q \<Rightarrow> Num (- q) | PInf \<Rightarrow> NInf)"

subsection \<open>\<open>Number\<close> applied to a string or to \<open>undefined\<close>\<close>

text \<open>
  A \<open>char\<close> stands for the UTF-16 code unit of the same number (code units above 255
  are outside the model). \<open>StringToNumber\<close> of ECMAScript: surrounding white space is
  dropped; the empty string is \<open>0\<close>; \<open>0x\<close>, \<open>0o\<close> and \<open>0b\<close> introduce unsigned hexadecimal,
  octal and binary integers; otherwise the text is an optionally signed \<open>Infinity\<close> or
  decimal literal with optional fraction and exponent; anything else is \<open>NaN\<close>. The
  value is rounded to the nearest double (beyond twenty significant digits ECMAScript
  lets an implementation round from the first twenty only; the model rounds the exact
  value, as V8 does).
\<close>

definition isStrWhiteSpaceChar :: "char \<Rightarrow> bool" where
  "isStrWhiteSpaceChar c = (let n = (of_char c :: nat) in
     n = 9 \<or> n = 10 \<or> n = 11 \<or> n = 12 \<or> n = 13 \<or> n = 32 \<or> n = 160)"

definition trimString :: "string \<Rightarrow> string" where
  "trimString s =
     rev (dropWhile isStrWhiteSpaceChar (rev (dropWhile isStrWhiteSpaceChar s)))"

definition digitValue :: "char \<Rightarrow> nat option" where
  "digitValue c = (let n = (of_char c :: nat) in
     if 48 \<le> n \<and> n \<le> 57 then Some (n - 48)
     else if 97 \<le> n \<and> n \<le> 102 then Some (n - 87)
     else if 65 \<le> n \<and> n \<le> 70 then Some (n - 55)
     else None)"

definition isDigitIn :: "nat \<Rightarrow> char \<Rightarrow> bool" where
  "isDigitIn base c = (case digitValue c of Some d \<Rightarrow> d < base | None \<Rightarrow> False)"

definition digitsValue :: "nat \<Rightarrow> string \<Rightarrow> nat" where
  "digitsValue base ds =
     foldl (\<lambda>acc c. acc * base + (case digitValue c of Some d \<Rightarrow> d | None \<Rightarrow> 0)) 0 ds"

definition stripSign :: "string \<Rightarrow> bool \<times> string" where
  "stripSign s = (case s of
       [] \<Rightarrow> (False, [])
     | c # r \<Rightarrow> if c = CHR ''+'' then (False, r)
                else if c = CHR ''-'' then (True, r)
                else (False, s))"

text \<open>The optional exponent part: nothing, or \<open>e\<close>/\<open>E\<close> and a signed run of digits.\<close>

definition exponentPart :: "string \<Rightarrow> int option" where
  "exponentPart s = (case s of
       [] \<Rightarrow> Some 0
     | c # r \<Rightarrow>
         if c = CHR ''e'' \<or> c = CHR ''E'' then
           (case stripSign r of (neg, ds) \<Rightarrow>
              if ds \<noteq> [] \<and> list_all (isDigitIn 10) ds
              then Some (if neg then - int (digitsValue 10 ds) else int (digitsValue 10 ds))
              else None)
         else None)"

text \<open>The optional fraction: whether there is a dot, its digits, and the rest.\<close>

definition fractionPart :: "string \<Rightarrow> string \<times> string" where
  "fractionPart s = (case s of
       [] \<Rightarrow> ([], [])
     | c # r \<Rightarrow> if c = CHR ''.''
                then (takeWhile (isDigitIn 10) r, dropWhile (isDigitIn 10) r)
                else ([], s))"

definition pow10 :: "int \<Rightarrow> rat" where
  "pow10 e = (if 0 \<le> e then 10 ^ nat e else 1 / 10 ^ nat (- e))"

definition unsignedDecimal :: "string \<Rightarrow> jsnum" where
  "unsignedDecimal s =
     (if s = ''Infinity'' then PInf
      else
        (let ip = takeWhile (isDigitIn 10) s;
             fr = fractionPart (dropWhile (isDigitIn 10) s);
             fp = fst fr
         in if ip = [] \<and> fp = [] then NaN
            else (case exponentPart (snd fr) of
                    None \<Rightarrow> NaN
                  | Some e \<Rightarrow>
                      toDouble ((of_nat (digitsValue 10 ip)
                                 + of_nat (digitsValue 10 fp) / 10 ^ length fp) * pow10 e))))"

definition strDecimalLiteral :: "string \<Rightarrow> jsnum" where
  "strDecimalLiteral s = (case stripSign s of (neg, r) \<Rightarrow>
     if neg then negate (unsignedDecimal r) else unsignedDecimal r)"

definition nonDecimalLiteral :: "string \<Rightarrow> nat option" where
  "nonDecimalLiteral s = (case s of
       c0 # c1 # ds \<Rightarrow>
         (let base = (if c1 = CHR ''x'' \<or> c1 = CHR ''X'' then 16
                      else if c1 = CHR ''o'' \<or> c1 = CHR ''O'' then 8
                      else if c1 = CHR ''b'' \<or> c1 = CHR ''B'' then 2
                      else (0::nat))
          in if c0 = CHR ''0'' \<and> base \<noteq> 0 \<and> ds \<noteq> [] \<and> list_all (isDigitIn base) ds
             then Some (digitsValue base ds) else None)
     | _ \<Rightarrow> None)"

definition StringToNumber :: "string \<Rightarrow> jsnum" where
  "StringToNumber s = (let t = trimString s in
     if t = [] then Num 0
     else (case nonDecimalLiteral t of
             Some v \<Rightarrow> toDouble (of_nat v)
           | None \<Rightarrow> strDecimalLiteral t))"

text \<open>\<open>Number(undefined)\<close> is \<open>NaN\<close>; \<open>None\<close> stands for \<open>undefined\<close>.\<close>

definition Number :: "string option \<Rightarrow> jsnum" where
  "Number x = (case x of None \<Rightarrow> NaN | Some s \<Rightarrow> StringToNumber s)"

section \<open>The version comparator\<close>

text \<open>
  \<open>String.prototype.split('.')\<close>: the pieces between the dots, in order; a string
  without a dot (the empty one too) is a single piece.
\<close>

fun split_dot :: "string \<Rightarrow> string list" where
  "split_dot [] = [[]]"
| "split_dot (c # cs) =
     (if c = CHR ''.'' then [] # split_dot cs
      else (case split_dot cs of
              [] \<Rightarrow> [[c]]
            | w # ws \<Rightarrow> (c # w) # ws))"

text \<open>Reading an array at an index: \<open>undefined\<close> beyond its end.\<close>

definition index :: "'a list \<Rightarrow> nat \<Rightarrow> 'a option" where
  "index xs i = (if i < length xs then Some (xs ! i) else None)"

text \<open>
  The loop of \<open>compareVersion\<close>, from index \<open>i\<close> on:
  \<^verbatim>\<open>
  while (i < 3) {
    v1 = Number(ver1[i]);
    v2 = Number(ver2[i]);
    if (v1 > v2) return 1;
    if (v1 < v2) return -1;
    i++;
  }
  return 0;
  \<close>
\<close>

function compareVersion_loop :: "string list \<Rightarrow> string list \<Rightarrow> nat \<Rightarrow> int" where
  "compareVersion_loop ver1 ver2 i =
     (if i < 3 then
        (let v1 = Number (index ver1 i); v2 = Number (index ver2 i)
         in if js_gt v1 v2 then 1
            else if js_lt v1 v2 then - 1
            else compareVersion_loop ver1 ver2 (i + 1))
      else 0)"
  by pat_completeness auto
termination
  by (relation "measure (\<lambda>(ver1, ver2, i). 3 - i)") auto

declare compareVersion_loop.simps [simp del]

definition compareVersion :: "string \<Rightarrow> string \<Rightarrow> int" where
  "compareVersion verion1 verion2 =
     compareVersion_loop (split_dot verion1) (split_dot verion2) 0"

text \<open>
  The number that the loop reads at position \<open>i\<close> of a version string. A string is a
  version triple when its first three components convert to numbers (none is \<open>NaN\<close>).
\<close>

definition versionComponent :: "string \<Rightarrow> nat \<Rightarrow> jsnum" where
  "versionComponent v i = Number (index (split_dot v) i)"

definition isVersionTriple :: "string \<Rightarrow> bool" where
  "isVersionTriple v =
     (versionComponent v 0 \<noteq> NaN \<and> versionComponent v 1 \<noteq> NaN \<and> versionComponent v 2 \<noteq> NaN)"

text \<open>
  The comparison in the words of the specification, on triples of numbers: major, then
  minor, then patch; the first component that differs decides; \<open>0\<close> when all three agree.
\<close>

definition spec_compare :: "jsnum \<times> jsnum \<times> jsnum \<Rightarrow> jsnum \<times> jsnum \<times> jsnum \<Rightarrow> int" where
  "spec_compare a b = (case a of (a0, a1, a2) \<Rightarrow> case b of (b0, b1, b2) \<Rightarrow>
     if a0 \<noteq> b0 then (if js_lt a0 b0 then - 1 else 1)
     else if a1 \<noteq> b1 then (if js_lt a1 b1 then - 1 else 1)
     else if a2 \<noteq> b2 then (if js_lt a2 b2 then - 1 else 1)
     else 0)"

definition versionTriple :: "string \<Rightarrow> jsnum \<times> jsnum \<times> jsnum" where
  "versionTriple v = (versionComponent v 0, versionComponent v 1, versionComponent v 2)"

section \<open>Choosing the release to install\<close>

text \<open>The configuration document (CodeGenerateCore.ts, lines 30-37 and 52-60).\<close>

record CodeGeneratorDownloadLocation =
  win32Md5 :: string
  win32PackageUrl :: string
  macOSMd5 :: string
  macOSPackageUrl :: string
  ubuntuMd5 :: string
  ubuntuPackageUrl :: string

record CodeGeneratorConfigItem =
  codeGeneratorVersion :: string
  iotWorkbenchMinimalVersion :: string
  codeGeneratorLocation :: CodeGeneratorDownloadLocation

record CodeGeneratorConfig =
  codeGeneratorConfigItems :: "CodeGeneratorConfigItem list"

text \<open>
  \<open>Array.prototype.sort(comparefn)\<close> is a stable sort (ECMAScript 2019); with a
  consistent comparator its result is the stable insertion sort below. An element goes
  in front of the first one that \<open>comparefn\<close> does not put before it. With an
  inconsistent comparator ECMAScript leaves the order to the implementation, and
  \<open>arraySort\<close> need not give the order of the engine: it stands for the engine's sort
  on lists whose versions are version triples, on which \<open>compareVersion\<close> is consistent.
  Every general statement below about the sorted order, or about which item is chosen
  from a non-empty list, is made for such lists only. The one list with a component
  that is not a number on which the order is evaluated, \<open>preview_config\<close>, is a list
  whose neighbours all compare equal, so that a stable sort leaves it as it is.
\<close>

fun insertSorted :: "('a \<Rightarrow> 'a \<Rightarrow> int) \<Rightarrow> 'a \<Rightarrow> 'a list \<Rightarrow> 'a list" where
  "insertSorted comparefn x [] = [x]"
| "insertSorted comparefn x (y # ys) =
     (if comparefn x y \<le> 0 then x # y # ys else y # insertSorted comparefn x ys)"

fun arraySort :: "('a \<Rightarrow> 'a \<Rightarrow> int) \<Rightarrow> 'a list \<Rightarrow> 'a list" where
  "arraySort comparefn [] = []"
| "arraySort comparefn (x # xs) = insertSorted comparefn x (arraySort comparefn xs)"

text \<open>
  Lines 442-447: the items sorted by \<open>codeGeneratorVersion\<close>, highest first (the
  comparator exchanges its arguments).
\<close>

definition reverseOrder :: "CodeGeneratorConfigItem \<Rightarrow> CodeGeneratorConfigItem \<Rightarrow> int" where
  "reverseOrder configItem1 configItem2 =
     compareVersion (codeGeneratorVersion configItem2) (codeGeneratorVersion configItem1)"

definition sortedConfigItems :: "CodeGeneratorConfig \<Rightarrow> CodeGeneratorConfigItem list" where
  "sortedConfigItems codeGenConfig =
     arraySort reverseOrder (codeGeneratorConfigItems codeGenConfig)"

text \<open>
  Line 450: the test \<^verbatim>\<open>/^[0-9]+\.[0-9]+\.[0-9]+$/\<close> on the version of the extension:
  exactly three non-empty runs of decimal digits between two dots. A version that
  fails it is a release candidate build.
\<close>

definition isDigits :: "string \<Rightarrow> bool" where
  "isDigits s = (s \<noteq> [] \<and> list_all (isDigitIn 10) s)"

definition isReleaseVersion :: "string \<Rightarrow> bool" where
  "isReleaseVersion v = (case split_dot v of
       [a, b, c] \<Rightarrow> isDigits a \<and> isDigits b \<and> isDigits c
     | _ \<Rightarrow> False)"

text \<open>
  Lines 453-459: the first item, in the sorted order, whose
  \<open>iotWorkbenchMinimalVersion\<close> the extension's version reaches.
\<close>

fun firstCompatible :: "string \<Rightarrow> CodeGeneratorConfigItem list \<Rightarrow> CodeGeneratorConfigItem option" where
  "firstCompatible extVersion [] = None"
| "firstCompatible extVersion (item # items) =
     (if 0 \<le> compareVersion extVersion (iotWorkbenchMinimalVersion item) then Some item
      else firstCompatible extVersion items)"

text \<open>
  Lines 438-461. \<open>None\<close> as the configuration is a falsy response; \<open>None\<close> as the result
  is the \<open>null\<close> (or the \<open>undefined\<close> read at index 0 of an empty array) that line 463
  tests.
\<close>

definition targetConfigItem :: "string \<Rightarrow> CodeGeneratorConfig option \<Rightarrow> CodeGeneratorConfigItem option" where
  "targetConfigItem extVersion codeGenConfig = (case codeGenConfig of
       None \<Rightarrow> None
     | Some config \<Rightarrow>
         (let items = sortedConfigItems config
          in if \<not> isReleaseVersion extVersion then index items 0
             else firstCompatible extVersion items))"

text \<open>
  An item with its \<open>iotWorkbenchMinimalVersion\<close> replaced, to state that a choice does
  not depend on that field.
\<close>

definition withMinimalVersion ::
  "(CodeGeneratorConfigItem \<Rightarrow> string) \<Rightarrow> CodeGeneratorConfigItem \<Rightarrow> CodeGeneratorConfigItem" where
  "withMinimalVersion g c = c\<lparr>iotWorkbenchMinimalVersion := g c\<rparr>"

section \<open>The upgrade flow\<close>

text \<open>
  \<open>UpgradeCodeGenerator\<close> (lines 422-577) works on the file system, on the stored
  setting \<open>codeGeneratorVersion\<close> and on the output channel. The state also keeps the
  list of calls made to the outside (network, file system, archive extractor, setting
  store), in order. Revealing the channel, the progress notification and the timer that
  prints dots while the download runs are not part of the state. The lines printed are
  named by what they say (their texts contain the product name, a constant of
  DigitalTwinConstants).
\<close>

type_synonym path = string

datatype node = File string | Directory

type_synonym filesystem = "path \<Rightarrow> node option"

datatype message =
    UnableToGetUpdatedVersion
  | StartUpgrading
  | Step1Downloading
  | DownloadComplete
  | Step2ValidatingHash
  | ValidatingHashSucceeded
  | Step3Extracting
  | UpdatedSuccessfully
  | EmptyLine

datatype io_call =
    RequestConfig
  | RequestPackage string
  | WriteFile path
  | HashFile path
  | ExtractZip path path
  | UpdateVersion string

text \<open>
  What the flow can throw: a rejected request, a file that cannot be written or read,
  \<^verbatim>\<open>new Error('Validating hash code failed.')\<close> of line 549, and the error that
  \<open>extract-zip\<close> reports.
\<close>

datatype error = NetworkError | FileError | IntegrityError | ExtractionError

record world =
  files :: filesystem
  storedVersion :: "string option"
  channel :: "message list"
  informationMessages :: "message list"
  calls :: "io_call list"

text \<open>
  What the run depends on and does not change: the version in \<open>package.json\<close>,
  \<open>os.platform()\<close>, the two directories, \<open>path.join\<close>, the responses of the remote side
  (\<open>None\<close>: the request is rejected; for the configuration, \<open>Some None\<close>: a falsy body),
  whether \<open>fs.writeFileSync\<close> can write a path, the MD5 digest in hexadecimal, and
  \<open>extract-zip\<close>, which changes the file system and reports success or an error.
\<close>

record env =
  extensionVersion :: string
  platform :: string
  codeGenCommandPath :: path
  tempPath :: path
  pathJoin :: "path \<Rightarrow> string \<Rightarrow> path"
  configResponse :: "CodeGeneratorConfig option option"
  packageResponse :: "string \<Rightarrow> string option"
  canWrite :: "filesystem \<Rightarrow> path \<Rightarrow> bool"
  md5hex :: "string \<Rightarrow> string"
  extractzip :: "path \<Rightarrow> path \<Rightarrow> filesystem \<Rightarrow> filesystem \<times> bool"

definition appendLine :: "message \<Rightarrow> world \<Rightarrow> world" where
  "appendLine m w = w\<lparr>channel := channel w @ [m]\<rparr>"

definition showInformationMessage :: "message \<Rightarrow> world \<Rightarrow> world" where
  "showInformationMessage m w = w\<lparr>informationMessages := informationMessages w @ [m]\<rparr>"

definition record_call :: "io_call \<Rightarrow> world \<Rightarrow> world" where
  "record_call c w = w\<lparr>calls := calls w @ [c]\<rparr>"

text \<open>
  Modelled from the spec: \<open>ConfigHandler\<close> (src/configHandler.ts is not among the
  sources). The specification describes a key-value configuration store that holds the
  currently installed tool version as a string, read and written through this
  collaborator: \<open>get\<close> returns the stored value (\<open>undefined\<close> when there is none) and
  \<open>update\<close> replaces it.
\<close>

definition ConfigHandler_get :: "world \<Rightarrow> string option" where
  "ConfigHandler_get w = storedVersion w"

definition ConfigHandler_update :: "string \<Rightarrow> world \<Rightarrow> world" where
  "ConfigHandler_update v w = (record_call (UpdateVersion v) w)\<lparr>storedVersion := Some v\<rparr>"

text \<open>\<open>fs.isDirectorySync\<close> of fs-plus.\<close>

definition isDirectorySync :: "world \<Rightarrow> path \<Rightarrow> bool" where
  "isDirectorySync w p = (files w p = Some Directory)"

text \<open>Lines 505-526: the package and its expected digest for the platform.\<close>

definition downloadLocation :: "env \<Rightarrow> CodeGeneratorConfigItem \<Rightarrow> string \<times> string" where
  "downloadLocation e configItem = (let loc = codeGeneratorLocation configItem in
     if platform e = ''win32'' then (win32PackageUrl loc, win32Md5 loc)
     else if platform e = ''darwin'' then (macOSPackageUrl loc, macOSMd5 loc)
     else (ubuntuPackageUrl loc, ubuntuMd5 loc))"

text \<open>
  \<open>fileHash\<close> (lines 597-614) reads the file as a stream and resolves to the digest of
  its content; a read error rejects.
\<close>

definition fileHash :: "env \<Rightarrow> path \<Rightarrow> world \<Rightarrow> (error + string) \<times> world" where
  "fileHash e filename w = (let w' = record_call (HashFile filename) w in
     case files w' filename of
       Some (File content) \<Rightarrow> (Inr (md5hex e content), w')
     | _ \<Rightarrow> (Inl FileError, w'))"

text \<open>
  \<open>extract\<close> (lines 616-626; \<open>extract\<close> is a command name here, hence \<open>extract_zip\<close>):
  rejects with the error of \<open>extract-zip\<close>, if any.
\<close>

definition extract_zip :: "env \<Rightarrow> path \<Rightarrow> path \<Rightarrow> world \<Rightarrow> (error + bool) \<times> world" where
  "extract_zip e sourceZip targetFoder w = (let w' = record_call (ExtractZip sourceZip targetFoder) w in
     case extractzip e sourceZip targetFoder (files w') of
       (fs', ok) \<Rightarrow> if ok then (Inr True, w'\<lparr>files := fs'\<rparr>)
                   else (Inl ExtractionError, w'\<lparr>files := fs'\<rparr>))"

text \<open>The body of the \<open>try\<close> block, lines 533-564.\<close>

definition upgradeTry :: "env \<Rightarrow> CodeGeneratorConfigItem \<Rightarrow> world \<Rightarrow> (error + unit) \<times> world" where
  "upgradeTry e configItem w = (case downloadLocation e configItem of (uri, md5value) \<Rightarrow>
     (let w1 = record_call (RequestPackage uri) (appendLine Step1Downloading w) in
      case packageResponse e uri of
        None \<Rightarrow> (Inl NetworkError, w1)
      | Some zipData \<Rightarrow>
          (let filePath = pathJoin e (tempPath e) (md5value @ ''.zip'');
               w2 = record_call (WriteFile filePath) w1
           in if \<not> canWrite e (files w2) filePath then (Inl FileError, w2)
              else
                (let w3 = appendLine Step2ValidatingHash (appendLine DownloadComplete
                            (w2\<lparr>files := (files w2)(filePath \<mapsto> File zipData)\<rparr>))
                 in case fileHash e filePath w3 of
                      (Inl err, w4) \<Rightarrow> (Inl err, w4)
                    | (Inr hashvalue, w4) \<Rightarrow>
                        if hashvalue \<noteq> md5value then (Inl IntegrityError, w4)
                        else
                          (let w5 = appendLine Step3Extracting
                                      (appendLine ValidatingHashSucceeded w4)
                           in case extract_zip e filePath (codeGenCommandPath e) w5 of
                                (Inl err, w6) \<Rightarrow> (Inl err, w6)
                              | (Inr _, w6) \<Rightarrow>
                                  (Inr (),
                                   ConfigHandler_update (codeGeneratorVersion configItem)
                                     (appendLine UpdatedSuccessfully w6)))))))"

text \<open>
  The task given to \<open>withProgress\<close>, lines 498-570: the \<open>catch\<close> block prints an empty
  line and throws the error again.
\<close>

definition upgradeTask :: "env \<Rightarrow> CodeGeneratorConfigItem \<Rightarrow> world \<Rightarrow> (error + unit) \<times> world" where
  "upgradeTask e configItem w = (case upgradeTry e configItem (appendLine StartUpgrading w) of
       (Inl err, w') \<Rightarrow> (Inl err, appendLine EmptyLine w')
     | (Inr u, w') \<Rightarrow> (Inr u, w'))"

text \<open>
  Lines 469-489. \<open>!currentVersion\<close> holds for \<open>undefined\<close> and for the empty string.
\<close>

definition needUpgrade :: "env \<Rightarrow> CodeGeneratorConfigItem \<Rightarrow> world \<Rightarrow> bool" where
  "needUpgrade e target w =
     (if \<not> isDirectorySync w (codeGenCommandPath e) then True
      else (case ConfigHandler_get w of
              None \<Rightarrow> True
            | Some currentVersion \<Rightarrow>
                currentVersion = [] \<or>
                0 < compareVersion (codeGeneratorVersion target) currentVersion))"

text \<open>
  The whole function: \<open>Inr False\<close> and \<open>Inr True\<close> are its two return values, \<open>Inl\<close> an
  error thrown to the caller.
\<close>

definition UpgradeCodeGenerator :: "env \<Rightarrow> world \<Rightarrow> (error + bool) \<times> world" where
  "UpgradeCodeGenerator e w = (let w0 = record_call RequestConfig w in
     case configResponse e of
       None \<Rightarrow> (Inl NetworkError, w0)
     | Some codeGenConfig \<Rightarrow>
         (case targetConfigItem (extensionVersion e) codeGenConfig of
            None \<Rightarrow> (Inr False, appendLine UnableToGetUpdatedVersion w0)
          | Some target \<Rightarrow>
              if needUpgrade e target w0 then
                (case upgradeTask e target w0 of
                   (Inl err, w1) \<Rightarrow> (Inl err, w1)
                 | (Inr _, w1) \<Rightarrow> (Inr True, showInformationMessage UpdatedSuccessfully w1))
              else (Inr True, w0)))"

section \<open>A concrete run\<close>

text \<open>
  The scenarios of the specification: the stored version is \<open>1.2.0\<close>, the extension has
  version \<open>1.5.0\<close>, the configuration offers \<open>1.3.0\<close> (for extensions from \<open>1.0.0\<close>) and
  \<open>1.4.0\<close> (for extensions from \<open>9.9.9\<close>), every package is announced with the digest
  \<open>abc123\<close>, and the tool directory does not exist yet. The digest that the download
  really has is the parameter of the environment.
\<close>

definition example_location :: CodeGeneratorDownloadLocation where
  "example_location =
     \<lparr>win32Md5 = ''abc123'', win32PackageUrl = ''https://host/win32.zip'',
      macOSMd5 = ''abc123'', macOSPackageUrl = ''https://host/macos.zip'',
      ubuntuMd5 = ''abc123'', ubuntuPackageUrl = ''https://host/ubuntu.zip''\<rparr>"

definition example_item :: "string \<Rightarrow> string \<Rightarrow> CodeGeneratorConfigItem" where
  "example_item v m =
     \<lparr>codeGeneratorVersion = v, iotWorkbenchMinimalVersion = m,
      codeGeneratorLocation = example_location\<rparr>"

definition example_config :: CodeGeneratorConfig where
  "example_config =
     \<lparr>codeGeneratorConfigItems =
        [example_item ''1.3.0'' ''1.0.0'', example_item ''1.4.0'' ''9.9.9'']\<rparr>"

text \<open>
  A configuration with a preview release between two releases: its third component,
  \<open>0-preview\<close>, does not convert to a number.
\<close>

definition preview_config :: CodeGeneratorConfig where
  "preview_config =
     \<lparr>codeGeneratorConfigItems =
        [example_item ''2.0.1'' ''1.0.0'', example_item ''2.0.0-preview'' ''1.0.0'',
         example_item ''2.0.2'' ''1.0.0'']\<rparr>"

definition example_env :: "string \<Rightarrow> string \<Rightarrow> env" where
  "example_env ext digest =
     \<lparr>extensionVersion = ext, platform = ''linux'',
      codeGenCommandPath = ''/home/user/tool'', tempPath = ''/tmp/iotworkbench'',
      pathJoin = (\<lambda>dir name. dir @ ''/'' @ name),
      configResponse = Some (Some example_config),
      packageResponse = (\<lambda>uri. Some ''zip-bytes''),
      canWrite = (\<lambda>fs p. True),
      md5hex = (\<lambda>content. digest),
      extractzip = (\<lambda>sourceZip dir fs. (fs(dir \<mapsto> Directory), True))\<rparr>"

definition example_world :: world where
  "example_world =
     \<lparr>files = Map.empty, storedVersion = Some ''1.2.0'', channel = [],
      informationMessages = [], calls = []\<rparr>"

text \<open>The state after the upgrade to \<open>1.3.0\<close> has gone through.\<close>

definition example_installed :: world where
  "example_installed =
     \<lparr>files = [''/tmp/iotworkbench/abc123.zip'' \<mapsto> File ''zip-bytes'',
               ''/home/user/tool'' \<mapsto> Directory],
      storedVersion = Some ''1.3.0'',
      channel = [StartUpgrading, Step1Downloading, DownloadComplete, Step2ValidatingHash,
                 ValidatingHashSucceeded, Step3Extracting, UpdatedSuccessfully],
      informationMessages = [UpdatedSuccessfully],
      calls = [RequestConfig, RequestPackage ''https://host/ubuntu.zip'',
               WriteFile ''/tmp/iotworkbench/abc123.zip'',
               HashFile ''/tmp/iotworkbench/abc123.zip'',
               ExtractZip ''/tmp/iotworkbench/abc123.zip'' ''/home/user/tool'',
               UpdateVersion ''1.3.0'']\<rparr>"

section \<open>The conversion is exact on integers below \<open>2^53\<close>\<close>

lemma bitlen_bounds: "0 < n \<Longrightarrow> 2 ^ (bitlen n - 1) \<le> n \<and> n < 2 ^ bitlen n"
proof (induction n rule: bitlen.induct)
  case (1 n)
  show ?case
  proof (cases "n div 2 = 0")
    case True
    with "1.prems" have "n = 1" by presburger
    then show ?thesis by (simp add: bitlen.simps)
  next
    case False
    with "1.prems" have pos: "0 < n div 2" by presburger
    with "1.IH" "1.prems" have ih: "2 ^ (bitlen (n div 2) - 1) \<le> n div 2" "n div 2 < 2 ^ bitlen (n div 2)"
      by auto
    from pos have bl: "0 < bitlen (n div 2)" by (subst bitlen.simps) simp
    have eq: "bitlen n = Suc (bitlen (n div 2))" using "1.prems" by (subst bitlen.simps) simp
    from bl have "(2::int) ^ (bitlen n - 1) = 2 * 2 ^ (bitlen (n div 2) - 1)"
      unfolding eq by (cases "bitlen (n div 2)") simp_all
    moreover have "n < 2 * 2 ^ bitlen (n div 2)" using ih(2) by presburger
    moreover have "2 * 2 ^ (bitlen (n div 2) - 1) \<le> n" using ih(1) by presburger
    ultimately show ?thesis unfolding eq by simp
  qed
qed

lemma roundHalfEven_of_int: "roundHalfEven (of_int z) = z"
  by (simp add: roundHalfEven_def)

lemma toDouble_of_nat:
  assumes "n < 2 ^ 53"
  shows "toDouble (of_nat n) = Num (of_nat n)"
proof (cases "n = 0")
  case True
  then show ?thesis by (simp add: toDouble_def)
next
  case False
  then have pos: "0 < int n" by simp
  define l where "l = bitlen (int n)"
  from bitlen_bounds [OF pos] have lo: "2 ^ (l - 1) \<le> int n" and hi: "int n < 2 ^ l"
    by (simp_all add: l_def)
  have l1: "1 \<le> l"
  proof (rule ccontr)
    assume "\<not> 1 \<le> l"
    then have "l = 0" by simp
    with hi pos show False by simp
  qed
  have l53: "l \<le> 53"
  proof (rule ccontr)
    assume "\<not> l \<le> 53"
    then have "53 \<le> l - 1" by simp
    then have "(2::int) ^ 53 \<le> 2 ^ (l - 1)" by (rule power_increasing) simp
    from this lo have "(2::int) ^ 53 \<le> int n" by (rule order_trans)
    moreover have "int n < int (2 ^ 53)" using assms by (simp only: of_nat_less_iff)
    ultimately show False by simp
  qed
  have b1: "bitlen 1 = 1" by (simp add: bitlen.simps)
  have q: "quotient_of (of_nat n) = (int n, 1)"
    using quotient_of_int [of "int n"] by simp
  have "(2::rat) ^ (l - 1) \<le> of_int (int n)"
    using lo by (metis of_int_le_iff of_int_numeral of_int_power)
  then have lo': "(2::rat) ^ (l - 1) \<le> of_nat n" by simp
  have e: "ilog2 (of_nat n) = int l - 1"
    using lo' l1 by (simp add: ilog2_def q b1 pow2_def l_def [symmetric] nat_diff_distrib)
  define k where "k = 53 - l"
  have p: "max (ilog2 (of_nat n) - 52) (- 1074) = - int k"
    using l1 l53 by (simp add: e k_def)
  have pk: "pow2 (- int k) = 1 / 2 ^ k"
    by (simp add: pow2_def)
  have m: "(of_nat n :: rat) / pow2 (- int k) = of_int (int n * 2 ^ k)"
    by (simp add: pk)
  have small: "\<not> pow2 1024 \<le> (of_nat n :: rat)"
  proof -
    have "(of_nat n :: rat) < of_nat (2 ^ 53)" using assms by (simp only: of_nat_less_iff)
    also have "\<dots> \<le> pow2 1024" by (simp add: pow2_def)
    finally show ?thesis by simp
  qed
  have v: "of_int (roundHalfEven ((of_nat n :: rat) / pow2 (- int k))) * pow2 (- int k) = (of_nat n :: rat)"
    unfolding m roundHalfEven_of_int by (simp add: pk)
  show ?thesis
    using False small by (simp add: toDouble_def Let_def p v)
qed

lemma toDouble_numeral:
  "numeral k < (2::nat) ^ 53 \<Longrightarrow> toDouble (numeral k) = Num (numeral k)"
  using toDouble_of_nat [of "numeral k"] by simp

lemma toDouble_0: "toDouble 0 = Num 0" by (simp add: toDouble_def)
lemma toDouble_1: "toDouble 1 = Num 1" using toDouble_of_nat [of 1] by simp

lemmas number_defs = Number_def StringToNumber_def trimString_def isStrWhiteSpaceChar_def
  nonDecimalLiteral_def strDecimalLiteral_def stripSign_def unsignedDecimal_def
  fractionPart_def exponentPart_def digitsValue_def digitValue_def isDigitIn_def pow10_def
  toDouble_numeral toDouble_0 toDouble_1 negate_def

section \<open>Runs of digits convert to numbers\<close>

lemma toDouble_not_NaN: "toDouble q \<noteq> NaN"
  by (simp add: toDouble_def Let_def)

lemma isDigitIn_10_iff: "isDigitIn 10 c \<longleftrightarrow> 48 \<le> (of_char c :: nat) \<and> (of_char c :: nat) \<le> 57"
  by (auto simp: isDigitIn_def digitValue_def Let_def)

lemma digit_not_special:
  assumes "isDigitIn 10 c"
  shows "\<not> isStrWhiteSpaceChar c" "c \<noteq> CHR ''+''" "c \<noteq> CHR ''-''" "c \<noteq> CHR ''I''"
    "c \<noteq> CHR ''x''" "c \<noteq> CHR ''X''" "c \<noteq> CHR ''o''" "c \<noteq> CHR ''O''"
    "c \<noteq> CHR ''b''" "c \<noteq> CHR ''B''"
  using assms unfolding isDigitIn_10_iff isStrWhiteSpaceChar_def Let_def by auto

lemma StringToNumber_digits:
  assumes "isDigits s"
  shows "StringToNumber s = toDouble (of_nat (digitsValue 10 s))"
proof -
  from assms obtain c cs where s: "s = c # cs" and all: "\<forall>x \<in> set s. isDigitIn 10 x"
    by (cases s) (auto simp: isDigits_def list_all_iff)
  then have c: "isDigitIn 10 c" by simp
  have "last s \<in> set s" using s by simp
  with all have l: "isDigitIn 10 (last s)" by blast
  have "dropWhile isStrWhiteSpaceChar s = s"
    using digit_not_special(1) [OF c] s by simp
  moreover have "dropWhile isStrWhiteSpaceChar (rev s) = rev s"
  proof -
    have "s \<noteq> []" using s by simp
    then have "hd (rev s) = last s" by (simp add: hd_rev)
    with digit_not_special(1) [OF l] show ?thesis
      by (simp only: dropWhile_eq_self_iff) simp
  qed
  ultimately have trim: "trimString s = s" by (simp add: trimString_def)
  have nd: "nonDecimalLiteral s = None"
  proof (cases cs)
    case Nil
    with s show ?thesis by (simp add: nonDecimalLiteral_def)
  next
    case (Cons c1 ds)
    with s all have "isDigitIn 10 c1" by simp
    from digit_not_special(5-10) [OF this] s Cons show ?thesis
      by (simp add: nonDecimalLiteral_def)
  qed
  have sign: "stripSign s = (False, s)"
    using digit_not_special(2,3) [OF c] s by (simp add: stripSign_def)
  have inf: "s \<noteq> ''Infinity''"
    using digit_not_special(4) [OF c] s by auto
  have tw: "takeWhile (isDigitIn 10) s = s" and dw: "dropWhile (isDigitIn 10) s = []"
    using all by (simp_all add: takeWhile_eq_all_conv)
  have ne: "s \<noteq> []" using s by simp
  have "unsignedDecimal s = toDouble (of_nat (digitsValue 10 s))"
    by (simp add: unsignedDecimal_def inf ne tw dw fractionPart_def exponentPart_def
        Let_def pow10_def digitsValue_def)
  with trim nd sign ne show ?thesis
    by (simp add: StringToNumber_def strDecimalLiteral_def Let_def)
qed

lemma isReleaseVersion_isVersionTriple:
  assumes "isReleaseVersion v"
  shows "isVersionTriple v"
proof -
  from assms obtain a b c where sp: "split_dot v = [a, b, c]"
    and d: "isDigits a" "isDigits b" "isDigits c"
    by (auto simp: isReleaseVersion_def split: list.splits)
  show ?thesis
    by (simp add: isVersionTriple_def versionComponent_def index_def sp Number_def
        StringToNumber_digits d toDouble_not_NaN)
qed

lemma isVersionTriple_nonempty: "isVersionTriple v \<Longrightarrow> v \<noteq> []"
  by (auto simp: isVersionTriple_def versionComponent_def index_def Number_def)

lemma Number_digits:
  "isDigits s \<Longrightarrow> digitsValue 10 s < 2 ^ 53 \<Longrightarrow>
   Number (Some s) = Num (of_nat (digitsValue 10 s))"
  by (simp add: Number_def StringToNumber_digits toDouble_of_nat)

section \<open>Properties of the comparator\<close>

lemma js_lt_irrefl: "\<not> js_lt a a"
  by (cases a) simp_all

lemma js_lt_trans: "js_lt a b \<Longrightarrow> js_lt b c \<Longrightarrow> js_lt a c"
  by (cases a; cases b; cases c) simp_all

lemma js_lt_asym: "js_lt a b \<Longrightarrow> \<not> js_lt b a"
  by (cases a; cases b) simp_all

lemma js_lt_total: "a \<noteq> NaN \<Longrightarrow> b \<noteq> NaN \<Longrightarrow> js_lt a b \<or> a = b \<or> js_lt b a"
  by (cases a; cases b) auto

lemma compareVersion_loop_3: "compareVersion_loop ver1 ver2 3 = 0"
  by (subst compareVersion_loop.simps) simp

lemma compareVersion_loop_2:
  "compareVersion_loop ver1 ver2 2 =
     (if js_lt (Number (index ver2 2)) (Number (index ver1 2)) then 1
      else if js_lt (Number (index ver1 2)) (Number (index ver2 2)) then - 1
      else 0)"
  by (subst compareVersion_loop.simps) (simp add: Let_def js_gt_def compareVersion_loop_3)

lemma compareVersion_loop_1:
  "compareVersion_loop ver1 ver2 1 =
     (if js_lt (Number (index ver2 1)) (Number (index ver1 1)) then 1
      else if js_lt (Number (index ver1 1)) (Number (index ver2 1)) then - 1
      else compareVersion_loop ver1 ver2 2)"
  by (subst compareVersion_loop.simps) (simp add: Let_def js_gt_def numeral_2_eq_2)

lemma compareVersion_loop_0:
  "compareVersion_loop ver1 ver2 0 =
     (if js_lt (Number (index ver2 0)) (Number (index ver1 0)) then 1
      else if js_lt (Number (index ver1 0)) (Number (index ver2 0)) then - 1
      else compareVersion_loop ver1 ver2 1)"
  by (subst compareVersion_loop.simps) (simp add: Let_def js_gt_def)

lemma compareVersion_unfold:
  "compareVersion a b =
     (if js_lt (versionComponent b 0) (versionComponent a 0) then 1
      else if js_lt (versionComponent a 0) (versionComponent b 0) then - 1
      else if js_lt (versionComponent b 1) (versionComponent a 1) then 1
      else if js_lt (versionComponent a 1) (versionComponent b 1) then - 1
      else if js_lt (versionComponent b 2) (versionComponent a 2) then 1
      else if js_lt (versionComponent a 2) (versionComponent b 2) then - 1
      else 0)"
  unfolding compareVersion_def versionComponent_def
    compareVersion_loop_0 compareVersion_loop_1 compareVersion_loop_2 ..

lemma spec_step:
  assumes "x \<noteq> NaN" and "y \<noteq> NaN"
  shows "(if js_lt y x then 1 else if js_lt x y then - 1 else r) =
         (if x \<noteq> y then (if js_lt x y then - 1 else 1) else (r::int))"
  using js_lt_total [OF assms] by (auto simp: js_lt_irrefl dest: js_lt_asym)

lemma compareVersion_spec:
  assumes "isVersionTriple a" and "isVersionTriple b"
  shows "compareVersion a b = spec_compare (versionTriple a) (versionTriple b)"
proof -
  from assms have n: "versionComponent a 0 \<noteq> NaN" "versionComponent a 1 \<noteq> NaN"
    "versionComponent a 2 \<noteq> NaN" "versionComponent b 0 \<noteq> NaN" "versionComponent b 1 \<noteq> NaN"
    "versionComponent b 2 \<noteq> NaN"
    by (simp_all add: isVersionTriple_def)
  show ?thesis
    unfolding compareVersion_unfold spec_compare_def versionTriple_def prod.case
      spec_step [OF n(1) n(4)] spec_step [OF n(2) n(5)] spec_step [OF n(3) n(6)] ..
qed

lemma compareVersion_range: "compareVersion a b \<in> {- 1, 0, 1}"
  unfolding compareVersion_unfold by simp

lemma step_neg:
  "r = - r' \<Longrightarrow>
   (if js_lt y x then 1 else if js_lt x y then - 1 else r) =
   - (if js_lt x y then 1 else if js_lt y x then - 1 else (r'::int))"
  by (auto dest: js_lt_asym)

lemma compareVersion_antisym: "compareVersion a b = - compareVersion b a"
  unfolding compareVersion_unfold by (intro step_neg) simp

lemma compareVersion_refl: "compareVersion a a = 0"
  unfolding compareVersion_unfold by (simp add: js_lt_irrefl)

lemma le0_step:
  assumes "x \<noteq> NaN" and "y \<noteq> NaN"
  shows "((if js_lt y x then 1 else if js_lt x y then - 1 else r) \<le> (0::int)) =
         (js_lt x y \<or> x = y \<and> r \<le> 0)"
  using js_lt_total [OF assms] by (auto simp: js_lt_irrefl dest: js_lt_asym)

lemma compareVersion_le0_iff:
  assumes "isVersionTriple a" and "isVersionTriple b"
  shows "compareVersion a b \<le> 0 \<longleftrightarrow>
     (js_lt (versionComponent a 0) (versionComponent b 0) \<or>
      versionComponent a 0 = versionComponent b 0 \<and>
      (js_lt (versionComponent a 1) (versionComponent b 1) \<or>
       versionComponent a 1 = versionComponent b 1 \<and>
       (js_lt (versionComponent a 2) (versionComponent b 2) \<or>
        versionComponent a 2 = versionComponent b 2)))"
proof -
  from assms have n: "versionComponent a 0 \<noteq> NaN" "versionComponent a 1 \<noteq> NaN"
    "versionComponent a 2 \<noteq> NaN" "versionComponent b 0 \<noteq> NaN" "versionComponent b 1 \<noteq> NaN"
    "versionComponent b 2 \<noteq> NaN"
    by (simp_all add: isVersionTriple_def)
  show ?thesis
    unfolding compareVersion_unfold
      le0_step [OF n(1) n(4)] le0_step [OF n(2) n(5)] le0_step [OF n(3) n(6)]
    by simp
qed

lemma lex_trans_step:
  assumes "js_lt x y \<or> x = y \<and> P" and "js_lt y z \<or> y = z \<and> Q"
    and "P \<Longrightarrow> Q \<Longrightarrow> R"
  shows "js_lt x z \<or> x = z \<and> R"
  using assms js_lt_trans [of x y z] by blast

lemma lex_trans_last:
  assumes "js_lt x y \<or> x = y" and "js_lt y z \<or> y = z"
  shows "js_lt x z \<or> x = z"
  using assms js_lt_trans [of x y z] by blast

lemma compareVersion_trans:
  assumes "isVersionTriple a" "isVersionTriple b" "isVersionTriple c"
    and "compareVersion a b \<le> 0" "compareVersion b c \<le> 0"
  shows "compareVersion a c \<le> 0"
proof -
  note ab = assms(4) [unfolded compareVersion_le0_iff [OF assms(1,2)]]
  note bc = assms(5) [unfolded compareVersion_le0_iff [OF assms(2,3)]]
  show ?thesis
    unfolding compareVersion_le0_iff [OF assms(1,3)]
  proof (rule lex_trans_step [OF ab bc])
    assume ab1: "js_lt (versionComponent a 1) (versionComponent b 1) \<or>
      versionComponent a 1 = versionComponent b 1 \<and>
      (js_lt (versionComponent a 2) (versionComponent b 2) \<or>
       versionComponent a 2 = versionComponent b 2)"
      and bc1: "js_lt (versionComponent b 1) (versionComponent c 1) \<or>
      versionComponent b 1 = versionComponent c 1 \<and>
      (js_lt (versionComponent b 2) (versionComponent c 2) \<or>
       versionComponent b 2 = versionComponent c 2)"
    show "js_lt (versionComponent a 1) (versionComponent c 1) \<or>
      versionComponent a 1 = versionComponent c 1 \<and>
      (js_lt (versionComponent a 2) (versionComponent c 2) \<or>
       versionComponent a 2 = versionComponent c 2)"
    proof (rule lex_trans_step [OF ab1 bc1])
      assume "js_lt (versionComponent a 2) (versionComponent b 2) \<or>
          versionComponent a 2 = versionComponent b 2"
        and "js_lt (versionComponent b 2) (versionComponent c 2) \<or>
          versionComponent b 2 = versionComponent c 2"
      then show "js_lt (versionComponent a 2) (versionComponent c 2) \<or>
          versionComponent a 2 = versionComponent c 2"
        by (rule lex_trans_last)
    qed
  qed
qed

lemma compareVersion_eq0_iff:
  assumes "isVersionTriple a" and "isVersionTriple b"
  shows "compareVersion a b = 0 \<longleftrightarrow> versionTriple a = versionTriple b"
  unfolding compareVersion_spec [OF assms] spec_compare_def versionTriple_def
  by auto

lemma index_take: "i < n \<Longrightarrow> index (take n xs) i = index xs i"
  by (simp add: index_def)

lemma versionComponent_cong:
  assumes "take 3 (split_dot a) = take 3 (split_dot b)" and "i < 3"
  shows "versionComponent a i = versionComponent b i"
proof -
  have "index (split_dot a) i = index (take 3 (split_dot a)) i"
    using assms(2) by (simp add: index_take)
  also have "\<dots> = index (split_dot b) i"
    unfolding assms(1) using assms(2) by (simp add: index_take)
  finally show ?thesis by (simp add: versionComponent_def)
qed

lemmas ver_defs = versionComponent_def index_def isVersionTriple_def versionTriple_def

section \<open>Sorting and scanning the releases\<close>

lemma mset_insertSorted: "mset (insertSorted f x xs) = add_mset x (mset xs)"
  by (induction xs) simp_all

lemma mset_arraySort: "mset (arraySort f xs) = mset xs"
  by (induction xs) (simp_all add: mset_insertSorted)

lemma set_insertSorted: "set (insertSorted f x xs) = insert x (set xs)"
  using mset_insertSorted [of f x xs, THEN arg_cong, of set_mset] by simp

lemma set_arraySort: "set (arraySort f xs) = set xs"
  using mset_arraySort [of f xs, THEN arg_cong, of set_mset] by simp

lemma arraySort_Nil_iff: "arraySort f xs = [] \<longleftrightarrow> xs = []"
  using set_arraySort [of f xs] by (metis set_empty)

lemma sorted_insertSorted:
  assumes total: "\<And>y. y \<in> set xs \<Longrightarrow> f x y \<le> 0 \<or> f y x \<le> 0"
    and trans: "\<And>y z. y \<in> set xs \<Longrightarrow> z \<in> set xs \<Longrightarrow> f x y \<le> 0 \<Longrightarrow> f y z \<le> 0 \<Longrightarrow> f x z \<le> 0"
    and sorted: "sorted_wrt (\<lambda>a b. f a b \<le> 0) xs"
  shows "sorted_wrt (\<lambda>a b. f a b \<le> 0) (insertSorted f x xs)"
  using assms
proof (induction xs)
  case Nil
  then show ?case by simp
next
  case (Cons y ys)
  show ?case
  proof (cases "f x y \<le> 0")
    case True
    have "f x z \<le> 0" if "z \<in> set ys" for z
    proof -
      from Cons.prems(3) that have "f y z \<le> 0" by simp
      with Cons.prems(2) [of y z] True that show ?thesis by simp
    qed
    with True Cons.prems(3) show ?thesis by simp
  next
    case False
    with Cons.prems(1) [of y] have yx: "f y x \<le> 0" by simp
    have "sorted_wrt (\<lambda>a b. f a b \<le> 0) (insertSorted f x ys)"
    proof (rule Cons.IH)
      show "f x z \<le> 0 \<or> f z x \<le> 0" if "z \<in> set ys" for z
        using Cons.prems(1) [of z] that by simp
      show "f x z \<le> 0" if "u \<in> set ys" "z \<in> set ys" "f x u \<le> 0" "f u z \<le> 0" for u z
        using Cons.prems(2) [of u z] that by simp
      show "sorted_wrt (\<lambda>a b. f a b \<le> 0) ys" using Cons.prems(3) by simp
    qed
    with False yx Cons.prems(3) show ?thesis by (simp add: set_insertSorted)
  qed
qed

lemma sorted_arraySort:
  "(\<forall>x \<in> set xs. \<forall>y \<in> set xs. f x y \<le> 0 \<or> f y x \<le> 0) \<Longrightarrow>
   (\<forall>x \<in> set xs. \<forall>y \<in> set xs. \<forall>z \<in> set xs. f x y \<le> 0 \<longrightarrow> f y z \<le> 0 \<longrightarrow> f x z \<le> 0) \<Longrightarrow>
   sorted_wrt (\<lambda>a b. f a b \<le> 0) (arraySort f xs)"
proof (induction xs)
  case Nil
  show ?case by simp
next
  case (Cons x xs)
  have ih: "sorted_wrt (\<lambda>a b. f a b \<le> 0) (arraySort f xs)"
  proof (rule Cons.IH)
    show "\<forall>x \<in> set xs. \<forall>y \<in> set xs. f x y \<le> 0 \<or> f y x \<le> 0"
      using Cons.prems(1) by (meson list.set_intros(2))
    show "\<forall>x \<in> set xs. \<forall>y \<in> set xs. \<forall>z \<in> set xs. f x y \<le> 0 \<longrightarrow> f y z \<le> 0 \<longrightarrow> f x z \<le> 0"
      using Cons.prems(2) by (meson list.set_intros(2))
  qed
  have "sorted_wrt (\<lambda>a b. f a b \<le> 0) (insertSorted f x (arraySort f xs))"
  proof (rule sorted_insertSorted [where f = f and x = x and xs = "arraySort f xs"])
    show "f x y \<le> 0 \<or> f y x \<le> 0" if "y \<in> set (arraySort f xs)" for y
    proof -
      from that have "y \<in> set (x # xs)" "x \<in> set (x # xs)"
        by (simp_all add: set_arraySort)
      with Cons.prems(1) show ?thesis by blast
    qed
    show "f x z \<le> 0" if "y \<in> set (arraySort f xs)" "z \<in> set (arraySort f xs)"
      "f x y \<le> 0" "f y z \<le> 0" for y z
    proof -
      from that have "y \<in> set (x # xs)" "z \<in> set (x # xs)" "x \<in> set (x # xs)"
        by (simp_all add: set_arraySort)
      with Cons.prems(2) that(3,4) show ?thesis by blast
    qed
    show "sorted_wrt (\<lambda>a b. f a b \<le> 0) (arraySort f xs)" by (rule ih)
  qed
  then show ?case by simp
qed

lemma arraySort_map:
  assumes "\<And>x y. f (g x) (g y) = f x y"
  shows "arraySort f (map g xs) = map g (arraySort f xs)"
proof -
  have ins: "insertSorted f (g x) (map g ys) = map g (insertSorted f x ys)" for x ys
    by (induction ys) (simp_all add: assms)
  show ?thesis by (induction xs) (simp_all add: ins)
qed

lemma mset_sortedConfigItems:
  "mset (sortedConfigItems config) = mset (codeGeneratorConfigItems config)"
  by (simp add: sortedConfigItems_def mset_arraySort)

lemma set_sortedConfigItems:
  "set (sortedConfigItems config) = set (codeGeneratorConfigItems config)"
  by (simp add: sortedConfigItems_def set_arraySort)

lemma sortedConfigItems_descending:
  assumes "\<forall>c \<in> set (codeGeneratorConfigItems config). isVersionTriple (codeGeneratorVersion c)"
  shows "sorted_wrt (\<lambda>x y. 0 \<le> compareVersion (codeGeneratorVersion x) (codeGeneratorVersion y))
           (sortedConfigItems config)"
proof -
  have "sorted_wrt (\<lambda>a b. reverseOrder a b \<le> 0) (arraySort reverseOrder (codeGeneratorConfigItems config))"
  proof (rule sorted_arraySort)
    have "reverseOrder x y \<le> 0 \<or> reverseOrder y x \<le> 0" for x y
      unfolding reverseOrder_def
      using compareVersion_antisym [of "codeGeneratorVersion x" "codeGeneratorVersion y"]
      by linarith
    then show "\<forall>x \<in> set (codeGeneratorConfigItems config).
        \<forall>y \<in> set (codeGeneratorConfigItems config).
          reverseOrder x y \<le> 0 \<or> reverseOrder y x \<le> 0"
      by blast
  next
    have "reverseOrder x z \<le> 0"
      if "x \<in> set (codeGeneratorConfigItems config)" "y \<in> set (codeGeneratorConfigItems config)"
        "z \<in> set (codeGeneratorConfigItems config)"
        "reverseOrder x y \<le> 0" "reverseOrder y z \<le> 0" for x y z
    proof -
      from assms that(1-3) have t: "isVersionTriple (codeGeneratorVersion x)"
        "isVersionTriple (codeGeneratorVersion y)" "isVersionTriple (codeGeneratorVersion z)"
        by simp_all
      from that(4,5) show ?thesis
        unfolding reverseOrder_def using compareVersion_trans [OF t(3) t(2) t(1)] by simp
    qed
    then show "\<forall>x \<in> set (codeGeneratorConfigItems config).
        \<forall>y \<in> set (codeGeneratorConfigItems config).
        \<forall>z \<in> set (codeGeneratorConfigItems config).
          reverseOrder x y \<le> 0 \<longrightarrow> reverseOrder y z \<le> 0 \<longrightarrow> reverseOrder x z \<le> 0"
      by blast
  qed
  moreover have "(reverseOrder a b \<le> 0) =
      (0 \<le> compareVersion (codeGeneratorVersion a) (codeGeneratorVersion b))" for a b
    unfolding reverseOrder_def
    using compareVersion_antisym [of "codeGeneratorVersion a" "codeGeneratorVersion b"]
    by linarith
  ultimately show ?thesis by (simp add: sortedConfigItems_def)
qed

lemma gate_iff:
  "(0 \<le> compareVersion ext m) = (\<not> 0 < compareVersion m ext)"
  using compareVersion_antisym [of ext m] by linarith

lemma firstCompatible_None:
  "firstCompatible ext items = None \<longleftrightarrow>
     (\<forall>c \<in> set items. 0 < compareVersion (iotWorkbenchMinimalVersion c) ext)"
  by (induction items) (simp_all add: gate_iff)

lemma firstCompatible_Some:
  "firstCompatible ext items = Some t \<Longrightarrow>
     \<not> 0 < compareVersion (iotWorkbenchMinimalVersion t) ext \<and>
     (\<exists>before after. items = before @ t # after \<and>
        (\<forall>c \<in> set before. 0 < compareVersion (iotWorkbenchMinimalVersion c) ext))"
proof (induction items)
  case Nil
  then show ?case by simp
next
  case (Cons item items)
  show ?case
  proof (cases "0 \<le> compareVersion ext (iotWorkbenchMinimalVersion item)")
    case True
    with Cons.prems have "t = item" by simp
    with True have "\<not> 0 < compareVersion (iotWorkbenchMinimalVersion t) ext"
      by (simp add: gate_iff)
    moreover have "item # items = [] @ t # items \<and>
        (\<forall>c \<in> set []. 0 < compareVersion (iotWorkbenchMinimalVersion c) ext)"
      using \<open>t = item\<close> by simp
    ultimately show ?thesis by blast
  next
    case False
    with Cons.prems have "firstCompatible ext items = Some t" by simp
    from Cons.IH [OF this] obtain before after where
      t: "\<not> 0 < compareVersion (iotWorkbenchMinimalVersion t) ext"
      and split: "items = before @ t # after"
      and skipped: "\<forall>c \<in> set before. 0 < compareVersion (iotWorkbenchMinimalVersion c) ext"
      by blast
    from False have "0 < compareVersion (iotWorkbenchMinimalVersion item) ext"
      by (simp add: gate_iff)
    with split skipped have "item # items = (item # before) @ t # after \<and>
        (\<forall>c \<in> set (item # before). 0 < compareVersion (iotWorkbenchMinimalVersion c) ext)"
      by simp
    with t show ?thesis by blast
  qed
qed

lemma index_0: "index xs 0 = (case xs of [] \<Rightarrow> None | x # _ \<Rightarrow> Some x)"
  by (cases xs) (simp_all add: index_def)

lemma targetConfigItem_release_eq:
  "isReleaseVersion ext \<Longrightarrow>
   targetConfigItem ext (Some config) = firstCompatible ext (sortedConfigItems config)"
  by (simp add: targetConfigItem_def Let_def)

lemma targetConfigItem_prerelease_eq:
  "\<not> isReleaseVersion ext \<Longrightarrow>
   targetConfigItem ext (Some config) = index (sortedConfigItems config) 0"
  by (simp add: targetConfigItem_def Let_def)

lemma sortedConfigItems_Nil_iff:
  "sortedConfigItems config = [] \<longleftrightarrow> codeGeneratorConfigItems config = []"
  by (simp add: sortedConfigItems_def arraySort_Nil_iff)

lemma targetConfigItem_in_set:
  assumes "targetConfigItem ext (Some config) = Some t"
  shows "t \<in> set (codeGeneratorConfigItems config)"
proof (cases "isReleaseVersion ext")
  case True
  with assms have "firstCompatible ext (sortedConfigItems config) = Some t"
    by (simp add: targetConfigItem_release_eq)
  from firstCompatible_Some [OF this] have "t \<in> set (sortedConfigItems config)" by auto
  then show ?thesis by (simp add: set_sortedConfigItems)
next
  case False
  with assms have "index (sortedConfigItems config) 0 = Some t"
    by (simp add: targetConfigItem_prerelease_eq)
  then have "t \<in> set (sortedConfigItems config)"
    by (cases "sortedConfigItems config") (simp_all add: index_0)
  then show ?thesis by (simp add: set_sortedConfigItems)
qed

lemma sortedConfigItems_head_highest:
  assumes "\<forall>c \<in> set (codeGeneratorConfigItems config). isVersionTriple (codeGeneratorVersion c)"
    and "sortedConfigItems config = t # rest"
    and "c \<in> set (codeGeneratorConfigItems config)"
  shows "0 \<le> compareVersion (codeGeneratorVersion t) (codeGeneratorVersion c)"
proof -
  from assms(3) have "c \<in> set (t # rest)"
    by (simp add: set_sortedConfigItems [symmetric] assms(2))
  then consider "c = t" | "c \<in> set rest" by auto
  then show ?thesis
  proof cases
    case 1
    then show ?thesis by (simp add: compareVersion_refl)
  next
    case 2
    from sortedConfigItems_descending [OF assms(1)] assms(2) 2 show ?thesis by simp
  qed
qed

lemma sortedConfigItems_map:
  "sortedConfigItems (config\<lparr>codeGeneratorConfigItems :=
       map (withMinimalVersion g) (codeGeneratorConfigItems config)\<rparr>) =
   map (withMinimalVersion g) (sortedConfigItems config)"
  unfolding sortedConfigItems_def
  by (simp add: arraySort_map reverseOrder_def withMinimalVersion_def)

section \<open>Steps of the upgrade\<close>

lemmas flow_defs = appendLine_def showInformationMessage_def record_call_def
  ConfigHandler_get_def ConfigHandler_update_def isDirectorySync_def fileHash_def
  extract_zip_def

lemma upgradeTry_mismatch:
  assumes "downloadLocation e configItem = (uri, md5value)"
    and "packageResponse e uri = Some zipData"
    and "canWrite e (files w) (pathJoin e (tempPath e) (md5value @ ''.zip''))"
    and "md5hex e zipData \<noteq> md5value"
  shows "upgradeTry e configItem w =
     (Inl IntegrityError,
      w\<lparr>files := (files w)(pathJoin e (tempPath e) (md5value @ ''.zip'') \<mapsto> File zipData),
        channel := channel w @ [Step1Downloading, DownloadComplete, Step2ValidatingHash],
        calls := calls w @ [RequestPackage uri,
                            WriteFile (pathJoin e (tempPath e) (md5value @ ''.zip'')),
                            HashFile (pathJoin e (tempPath e) (md5value @ ''.zip''))]\<rparr>)"
  using assms by (simp add: upgradeTry_def flow_defs Let_def)

lemma upgradeTry_error:
  "upgradeTry e configItem w = (Inl err, w') \<Longrightarrow> storedVersion w' = storedVersion w"
  by (auto simp: upgradeTry_def flow_defs Let_def
      split: prod.splits option.splits sum.splits node.splits if_splits)

lemma upgradeTry_success:
  assumes "upgradeTry e configItem w = (Inr u, w')"
    and "downloadLocation e configItem = (uri, md5value)"
  shows "\<exists>zipData fs'.
      packageResponse e uri = Some zipData \<and>
      canWrite e (files w) (pathJoin e (tempPath e) (md5value @ ''.zip'')) \<and>
      md5hex e zipData = md5value \<and>
      extractzip e (pathJoin e (tempPath e) (md5value @ ''.zip'')) (codeGenCommandPath e)
        ((files w)(pathJoin e (tempPath e) (md5value @ ''.zip'') \<mapsto> File zipData)) = (fs', True) \<and>
      w' = w\<lparr>files := fs',
             storedVersion := Some (codeGeneratorVersion configItem),
             channel := channel w @ [Step1Downloading, DownloadComplete, Step2ValidatingHash,
                                     ValidatingHashSucceeded, Step3Extracting, UpdatedSuccessfully],
             calls := calls w @ [RequestPackage uri,
                                 WriteFile (pathJoin e (tempPath e) (md5value @ ''.zip'')),
                                 HashFile (pathJoin e (tempPath e) (md5value @ ''.zip'')),
                                 ExtractZip (pathJoin e (tempPath e) (md5value @ ''.zip''))
                                   (codeGenCommandPath e),
                                 UpdateVersion (codeGeneratorVersion configItem)]\<rparr>"
  using assms
  by (auto simp: upgradeTry_def flow_defs Let_def
      split: prod.splits option.splits sum.splits node.splits if_splits)

lemma upgradeTry_error_calls:
  "upgradeTry e configItem w = (Inl err, w') \<Longrightarrow>
   \<exists>new. calls w' = calls w @ new \<and> (\<forall>v. UpdateVersion v \<notin> set new)"
  by (auto simp: upgradeTry_def flow_defs Let_def
      split: prod.splits option.splits sum.splits node.splits if_splits)

lemma upgradeTask_error:
  assumes "upgradeTask e configItem w = (Inl err, w')"
  shows "storedVersion w' = storedVersion w \<and>
         (\<exists>new. calls w' = calls w @ new \<and> (\<forall>v. UpdateVersion v \<notin> set new))"
proof -
  from assms obtain w1 where t: "upgradeTry e configItem (appendLine StartUpgrading w) = (Inl err, w1)"
    and w': "w' = appendLine EmptyLine w1"
    by (auto simp: upgradeTask_def split: prod.splits sum.splits)
  from upgradeTry_error [OF t] upgradeTry_error_calls [OF t] w' show ?thesis
    by (simp add: flow_defs)
qed

lemma upgradeTask_success:
  assumes "upgradeTask e configItem w = (Inr u, w')"
    and "downloadLocation e configItem = (uri, md5value)"
  shows "\<exists>zipData fs'.
      packageResponse e uri = Some zipData \<and>
      canWrite e (files w) (pathJoin e (tempPath e) (md5value @ ''.zip'')) \<and>
      md5hex e zipData = md5value \<and>
      extractzip e (pathJoin e (tempPath e) (md5value @ ''.zip'')) (codeGenCommandPath e)
        ((files w)(pathJoin e (tempPath e) (md5value @ ''.zip'') \<mapsto> File zipData)) = (fs', True) \<and>
      w' = w\<lparr>files := fs',
             storedVersion := Some (codeGeneratorVersion configItem),
             channel := channel w @ [StartUpgrading, Step1Downloading, DownloadComplete,
                                     Step2ValidatingHash, ValidatingHashSucceeded,
                                     Step3Extracting, UpdatedSuccessfully],
             calls := calls w @ [RequestPackage uri,
                                 WriteFile (pathJoin e (tempPath e) (md5value @ ''.zip'')),
                                 HashFile (pathJoin e (tempPath e) (md5value @ ''.zip'')),
                                 ExtractZip (pathJoin e (tempPath e) (md5value @ ''.zip''))
                                   (codeGenCommandPath e),
                                 UpdateVersion (codeGeneratorVersion configItem)]\<rparr>"
proof -
  from assms(1) have "upgradeTry e configItem (appendLine StartUpgrading w) = (Inr u, w')"
    by (auto simp: upgradeTask_def split: prod.splits sum.splits)
  from upgradeTry_success [OF this assms(2)] show ?thesis
    by (simp add: flow_defs)
qed

lemma needUpgrade_cong:
  "files w1 = files w2 \<Longrightarrow> storedVersion w1 = storedVersion w2 \<Longrightarrow>
   needUpgrade e target w1 = needUpgrade e target w2"
  by (simp add: needUpgrade_def flow_defs)

text \<open>What a run is, case by case.\<close>

lemma UpgradeCodeGenerator_cases:
  assumes "UpgradeCodeGenerator e w = (r, w')"
  obtains
    (rejected) "configResponse e = None" "r = Inl NetworkError" "w' = record_call RequestConfig w"
  | (no_target) codeGenConfig where "configResponse e = Some codeGenConfig"
      "targetConfigItem (extensionVersion e) codeGenConfig = None"
      "r = Inr False" "w' = appendLine UnableToGetUpdatedVersion (record_call RequestConfig w)"
  | (current) codeGenConfig target where "configResponse e = Some codeGenConfig"
      "targetConfigItem (extensionVersion e) codeGenConfig = Some target"
      "\<not> needUpgrade e target (record_call RequestConfig w)"
      "r = Inr True" "w' = record_call RequestConfig w"
  | (failed) codeGenConfig target err where "configResponse e = Some codeGenConfig"
      "targetConfigItem (extensionVersion e) codeGenConfig = Some target"
      "needUpgrade e target (record_call RequestConfig w)"
      "upgradeTask e target (record_call RequestConfig w) = (Inl err, w')" "r = Inl err"
  | (upgraded) codeGenConfig target w1 where "configResponse e = Some codeGenConfig"
      "targetConfigItem (extensionVersion e) codeGenConfig = Some target"
      "needUpgrade e target (record_call RequestConfig w)"
      "upgradeTask e target (record_call RequestConfig w) = (Inr (), w1)" "r = Inr True"
      "w' = showInformationMessage UpdatedSuccessfully w1"
proof (cases "configResponse e")
  case None
  with assms have "r = Inl NetworkError" "w' = record_call RequestConfig w"
    by (simp_all add: UpgradeCodeGenerator_def Let_def)
  with None show ?thesis by (rule rejected)
next
  case (Some codeGenConfig)
  note cfg = this
  show ?thesis
  proof (cases "targetConfigItem (extensionVersion e) codeGenConfig")
    case None
    with assms cfg have "r = Inr False"
      "w' = appendLine UnableToGetUpdatedVersion (record_call RequestConfig w)"
      by (simp_all add: UpgradeCodeGenerator_def Let_def)
    with cfg None show ?thesis by (rule no_target)
  next
    case (Some target)
    note tgt = this
    show ?thesis
    proof (cases "needUpgrade e target (record_call RequestConfig w)")
      case False
      with assms cfg tgt have "r = Inr True" "w' = record_call RequestConfig w"
        by (simp_all add: UpgradeCodeGenerator_def Let_def)
      with cfg tgt False show ?thesis by (rule current)
    next
      case True
      note need = this
      obtain res w1 where task: "upgradeTask e target (record_call RequestConfig w) = (res, w1)"
        by (cases "upgradeTask e target (record_call RequestConfig w)")
      show ?thesis
      proof (cases res)
        case (Inl err)
        with assms cfg tgt need task have r: "r = Inl err" and "w' = w1"
          by (simp_all add: UpgradeCodeGenerator_def Let_def)
        with task Inl have "upgradeTask e target (record_call RequestConfig w) = (Inl err, w')"
          by simp
        from cfg tgt need this r show ?thesis by (rule failed)
      next
        case (Inr u)
        with assms cfg tgt need task have r: "r = Inr True"
          and w': "w' = showInformationMessage UpdatedSuccessfully w1"
          by (simp_all add: UpgradeCodeGenerator_def Let_def)
        from task Inr have "upgradeTask e target (record_call RequestConfig w) = (Inr (), w1)"
          by simp
        from cfg tgt need this r w' show ?thesis by (rule upgraded)
      qed
    qed
  qed
qed

section \<open>The concrete run, evaluated\<close>

lemmas example_defs = example_location_def example_item_def example_config_def
  example_env_def example_world_def

lemma cmp_130_140: "compareVersion ''1.3.0'' ''1.4.0'' = - 1"
  unfolding compareVersion_unfold by (simp add: ver_defs number_defs)
lemma cmp_140_130: "compareVersion ''1.4.0'' ''1.3.0'' = 1"
  unfolding compareVersion_unfold by (simp add: ver_defs number_defs)
lemma cmp_150_999: "compareVersion ''1.5.0'' ''9.9.9'' = - 1"
  unfolding compareVersion_unfold by (simp add: ver_defs number_defs)
lemma cmp_150_100: "compareVersion ''1.5.0'' ''1.0.0'' = 1"
  unfolding compareVersion_unfold by (simp add: ver_defs number_defs)
lemma cmp_130_120: "compareVersion ''1.3.0'' ''1.2.0'' = 1"
  unfolding compareVersion_unfold by (simp add: ver_defs number_defs)
lemma rel_150: "isReleaseVersion ''1.5.0''"
  by (simp add: isReleaseVersion_def isDigits_def isDigitIn_def digitValue_def)
lemma rel_rc: "\<not> isReleaseVersion ''1.5.0-rc''"
  by (simp add: isReleaseVersion_def isDigits_def isDigitIn_def digitValue_def)

lemma example_sorted:
  "sortedConfigItems example_config = [example_item ''1.4.0'' ''9.9.9'', example_item ''1.3.0'' ''1.0.0'']"
  by (simp add: sortedConfigItems_def example_config_def reverseOrder_def example_item_def
      cmp_130_140 cmp_140_130)

lemma example_target:
  "targetConfigItem ''1.5.0'' (Some example_config) = Some (example_item ''1.3.0'' ''1.0.0'')"
  by (simp add: targetConfigItem_def example_sorted rel_150 Let_def)
     (simp add: example_item_def cmp_150_999 cmp_150_100)

lemma example_target_rc:
  "targetConfigItem ''1.5.0-rc'' (Some example_config) = Some (example_item ''1.4.0'' ''9.9.9'')"
  by (simp add: targetConfigItem_def example_sorted rel_rc Let_def index_def)

lemma cmp_100_090: "compareVersion ''1.0.0'' ''0.9.0'' = 1"
  unfolding compareVersion_unfold by (simp add: ver_defs number_defs)

lemma cmp_999_090: "compareVersion ''9.9.9'' ''0.9.0'' = 1"
  unfolding compareVersion_unfold by (simp add: ver_defs number_defs)

lemma cmp_100_150: "compareVersion ''1.0.0'' ''1.5.0'' = - 1"
  unfolding compareVersion_unfold by (simp add: ver_defs number_defs)

lemma cmp_999_150: "compareVersion ''9.9.9'' ''1.5.0'' = 1"
  unfolding compareVersion_unfold by (simp add: ver_defs number_defs)

lemma cmp_999_150rc: "compareVersion ''9.9.9'' ''1.5.0-rc'' = 1"
  unfolding compareVersion_unfold by (simp add: ver_defs number_defs)

lemma rel_090: "isReleaseVersion ''0.9.0''"
  by (simp add: isReleaseVersion_def isDigits_def isDigitIn_def digitValue_def)

lemma triple_130: "isVersionTriple ''1.3.0''"
  by (simp add: ver_defs number_defs)

lemma triple_140: "isVersionTriple ''1.4.0''"
  by (simp add: ver_defs number_defs)

lemma example_triples:
  "\<forall>c \<in> set (codeGeneratorConfigItems example_config). isVersionTriple (codeGeneratorVersion c)"
  by (simp add: example_config_def example_item_def triple_130 triple_140)

lemma example_mismatch_run:
  "UpgradeCodeGenerator (example_env ''1.5.0'' ''xyz999'') example_world =
     (Inl IntegrityError,
      example_world\<lparr>files := (files example_world)(''/tmp/iotworkbench/abc123.zip'' \<mapsto> File ''zip-bytes''),
        channel := [StartUpgrading, Step1Downloading, DownloadComplete,
                    Step2ValidatingHash, EmptyLine],
        calls := [RequestConfig, RequestPackage ''https://host/ubuntu.zip'',
                  WriteFile ''/tmp/iotworkbench/abc123.zip'',
                  HashFile ''/tmp/iotworkbench/abc123.zip'']\<rparr>)"
  by (simp add: UpgradeCodeGenerator_def example_env_def example_target Let_def)
     (simp add: needUpgrade_def upgradeTask_def upgradeTry_def downloadLocation_def flow_defs
        example_world_def example_item_def example_location_def Let_def)

lemma example_success_run:
  "UpgradeCodeGenerator (example_env ''1.5.0'' ''abc123'') example_world = (Inr True, example_installed)"
  by (simp add: UpgradeCodeGenerator_def example_env_def example_target Let_def)
     (simp add: needUpgrade_def upgradeTask_def upgradeTry_def downloadLocation_def flow_defs
        example_world_def example_installed_def example_item_def example_location_def Let_def)

lemma cmp_preview_201: "compareVersion ''2.0.0-preview'' ''2.0.1'' = 0"
  unfolding compareVersion_unfold by (simp add: ver_defs number_defs)

lemma cmp_202_preview: "compareVersion ''2.0.2'' ''2.0.0-preview'' = 0"
  unfolding compareVersion_unfold by (simp add: ver_defs number_defs)

lemma cmp_202_201: "compareVersion ''2.0.2'' ''2.0.1'' = 1"
  unfolding compareVersion_unfold by (simp add: ver_defs number_defs)

lemma cmp_201_202: "compareVersion ''2.0.1'' ''2.0.2'' = - 1"
  unfolding compareVersion_unfold by (simp add: ver_defs number_defs)

lemma preview_component: "versionComponent ''2.0.0-preview'' 2 = NaN"
  by (simp add: ver_defs number_defs)

lemma preview_sorted:
  "sortedConfigItems preview_config = codeGeneratorConfigItems preview_config"
  by (simp add: sortedConfigItems_def preview_config_def reverseOrder_def example_item_def
      cmp_preview_201 cmp_202_preview)

lemma preview_target:
  "targetConfigItem ''1.5.0'' (Some preview_config) = Some (example_item ''2.0.1'' ''1.0.0'')"
  by (simp add: targetConfigItem_def preview_sorted rel_150 Let_def)
     (simp add: preview_config_def example_item_def cmp_150_100)

lemma preview_target_rc:
  "targetConfigItem ''1.5.0-rc'' (Some preview_config) = Some (example_item ''2.0.1'' ''1.0.0'')"
  by (simp add: targetConfigItem_def preview_sorted rel_rc Let_def index_def)
     (simp add: preview_config_def)

section \<open>The comparator: claims\<close>

text \<open>
  C3. The specification says that a non-numeric component is parsed as \<open>0\<close>, so that
  \<open>compare("x.0.0", "1.0.0")\<close> behaves as \<open>compare("0.0.0", "1.0.0")\<close>. In the code
  \<open>Number("x")\<close> is \<open>NaN\<close>, which is neither greater nor smaller than any number: the
  loop steps over the component as if it were equal to its counterpart. The first
  call returns \<open>0\<close>, the second \<open>-1\<close>. A missing component (\<open>undefined\<close>) fares the same:
  \<open>1.1\<close> compares equal to \<open>1.1.5\<close>, where \<open>1.1.0\<close> is smaller. The comment of line 586
  announces the default \<open>0\<close>.
\<close>

theorem compareVersion_non_numeric_component:
  "versionComponent ''x.0.0'' 0 = NaN \<and>
   compareVersion ''x.0.0'' ''1.0.0'' = 0 \<and>
   compareVersion ''0.0.0'' ''1.0.0'' = - 1 \<and>
   versionComponent ''1.1'' 2 = NaN \<and>
   compareVersion ''1.1'' ''1.1.5'' = 0 \<and>
   compareVersion ''1.1.0'' ''1.1.5'' = - 1"
  unfolding compareVersion_unfold by (simp add: ver_defs number_defs)

text \<open>
  C5. On version triples \<open>compareVersion\<close> is the comparison of the specification:
  major first, then minor, then patch; the first component in which the two triples
  differ decides between \<open>-1\<close> and \<open>1\<close>, and the result is \<open>0\<close> when the three
  components agree. Every string of three runs of digits between two dots is a
  version triple (\<open>isReleaseVersion_isVersionTriple\<close>), and a run of digits below
  \<open>2^53\<close> converts to its decimal value (\<open>Number_digits\<close>).
\<close>

theorem compareVersion_major_minor_patch:
  assumes "isVersionTriple a" and "isVersionTriple b"
  shows "compareVersion a b = spec_compare (versionTriple a) (versionTriple b)"
  using assms by (rule compareVersion_spec)

theorem compareVersion_major_minor_patch_witness:
  "isVersionTriple ''1.2.3'' \<and> isVersionTriple ''1.10.0'' \<and>
   versionTriple ''1.2.3'' = (Num 1, Num 2, Num 3) \<and>
   versionTriple ''1.10.0'' = (Num 1, Num 10, Num 0) \<and>
   compareVersion ''1.2.3'' ''1.10.0'' = spec_compare (Num 1, Num 2, Num 3) (Num 1, Num 10, Num 0) \<and>
   spec_compare (Num 1, Num 2, Num 3) (Num 1, Num 10, Num 0) = - 1"
proof -
  have a: "isVersionTriple ''1.2.3''" and b: "isVersionTriple ''1.10.0''"
    by (simp_all add: ver_defs number_defs)
  have ta: "versionTriple ''1.2.3'' = (Num 1, Num 2, Num 3)"
    and tb: "versionTriple ''1.10.0'' = (Num 1, Num 10, Num 0)"
    by (simp_all add: ver_defs number_defs)
  have s: "spec_compare (Num 1, Num 2, Num 3) (Num 1, Num 10, Num 0) = - 1"
    by (simp add: spec_compare_def)
  from compareVersion_major_minor_patch [OF a b] a b ta tb s show ?thesis by simp
qed

text \<open>
  C6. \<open>compareVersion\<close> orders the version triples: its value is one of \<open>-1\<close>, \<open>0\<close>,
  \<open>1\<close>; exchanging the arguments negates it; a version compares equal to itself; on
  version triples it is transitive, and \<open>0\<close> exactly when the two triples are the
  same. The first three hold for all strings.
\<close>

theorem compareVersion_total_order:
  "compareVersion a b \<in> {- 1, 0, 1} \<and>
   compareVersion a b = - compareVersion b a \<and>
   compareVersion a a = 0 \<and>
   (isVersionTriple a \<and> isVersionTriple b \<and> isVersionTriple c \<and>
    compareVersion a b \<le> 0 \<and> compareVersion b c \<le> 0 \<longrightarrow> compareVersion a c \<le> 0) \<and>
   (isVersionTriple a \<and> isVersionTriple b \<longrightarrow>
    (compareVersion a b = 0 \<longleftrightarrow> versionTriple a = versionTriple b))"
proof (intro conjI impI)
  show "compareVersion a b \<in> {- 1, 0, 1}" by (rule compareVersion_range)
  show "compareVersion a b = - compareVersion b a" by (rule compareVersion_antisym)
  show "compareVersion a a = 0" by (rule compareVersion_refl)
next
  assume "isVersionTriple a \<and> isVersionTriple b \<and> isVersionTriple c \<and>
    compareVersion a b \<le> 0 \<and> compareVersion b c \<le> 0"
  then show "compareVersion a c \<le> 0"
    using compareVersion_trans [of a b c] by blast
next
  assume "isVersionTriple a \<and> isVersionTriple b"
  then show "compareVersion a b = 0 \<longleftrightarrow> versionTriple a = versionTriple b"
    using compareVersion_eq0_iff [of a b] by blast
qed

theorem compareVersion_total_order_witness:
  "isVersionTriple ''1.2.3'' \<and> isVersionTriple ''1.10.0'' \<and> isVersionTriple ''2.0.0'' \<and>
   compareVersion ''1.2.3'' ''1.10.0'' \<le> 0 \<and> compareVersion ''1.10.0'' ''2.0.0'' \<le> 0 \<and>
   compareVersion ''1.2.3'' ''2.0.0'' \<le> 0 \<and>
   compareVersion ''1.2.3'' ''1.10.0'' = - compareVersion ''1.10.0'' ''1.2.3'' \<and>
   compareVersion ''1.2.3'' ''1.10.0'' \<noteq> 0 \<and>
   versionTriple ''1.2.3'' \<noteq> versionTriple ''1.10.0''"
proof -
  note order = compareVersion_total_order [of "''1.2.3''" "''1.10.0''" "''2.0.0''"]
  note anti = order [THEN conjunct2, THEN conjunct1]
  note trans = order [THEN conjunct2, THEN conjunct2, THEN conjunct2, THEN conjunct1, rule_format]
  note eq0 = order [THEN conjunct2, THEN conjunct2, THEN conjunct2, THEN conjunct2, rule_format]
  have t1: "isVersionTriple ''1.2.3''" and t2: "isVersionTriple ''1.10.0''"
    and t3: "isVersionTriple ''2.0.0''"
    by (simp_all add: ver_defs number_defs)
  have ab: "compareVersion ''1.2.3'' ''1.10.0'' = - 1"
    unfolding compareVersion_unfold by (simp add: ver_defs number_defs)
  have ab0: "compareVersion ''1.2.3'' ''1.10.0'' \<le> 0" and ne: "compareVersion ''1.2.3'' ''1.10.0'' \<noteq> 0"
    unfolding ab by simp_all
  have bc: "compareVersion ''1.10.0'' ''2.0.0'' \<le> 0"
    unfolding compareVersion_unfold by (simp add: ver_defs number_defs)
  have ac: "compareVersion ''1.2.3'' ''2.0.0'' \<le> 0"
    by (rule trans) (intro conjI t1 t2 t3 ab0 bc)
  have "(compareVersion ''1.2.3'' ''1.10.0'' = 0) = (versionTriple ''1.2.3'' = versionTriple ''1.10.0'')"
    by (rule eq0) (intro conjI t1 t2)
  with ne have vt: "versionTriple ''1.2.3'' \<noteq> versionTriple ''1.10.0''" by blast
  show ?thesis by (intro conjI) (fact t1 t2 t3 ab0 bc ac anti ne vt)+
qed

text \<open>
  C10. Only the first three pieces of each version string are read: two pairs of
  strings that agree on their first three dot-separated components give the same
  result, and two strings that agree with each other on them compare equal, whatever
  follows.
\<close>

theorem compareVersion_first_three:
  "(take 3 (split_dot a) = take 3 (split_dot a') \<and>
    take 3 (split_dot b) = take 3 (split_dot b') \<longrightarrow>
    compareVersion a b = compareVersion a' b') \<and>
   (take 3 (split_dot a) = take 3 (split_dot b) \<longrightarrow> compareVersion a b = 0)"
proof (intro conjI impI)
  assume "take 3 (split_dot a) = take 3 (split_dot a') \<and>
    take 3 (split_dot b) = take 3 (split_dot b')"
  then have a: "take 3 (split_dot a) = take 3 (split_dot a')"
    and b: "take 3 (split_dot b) = take 3 (split_dot b')"
    by simp_all
  show "compareVersion a b = compareVersion a' b'"
    unfolding compareVersion_unfold
    by (simp add: versionComponent_cong [OF a] versionComponent_cong [OF b])
next
  assume ab: "take 3 (split_dot a) = take 3 (split_dot b)"
  show "compareVersion a b = 0"
    unfolding compareVersion_unfold
    by (simp add: versionComponent_cong [OF ab] js_lt_irrefl)
qed

theorem compareVersion_first_three_witness:
  "take 3 (split_dot ''1.2.3.4'') = take 3 (split_dot ''1.2.3.9'') \<and>
   split_dot ''1.2.3.4'' \<noteq> split_dot ''1.2.3.9'' \<and>
   compareVersion ''1.2.3.4'' ''1.2.3.9'' = 0"
proof -
  have h: "take 3 (split_dot ''1.2.3.4'') = take 3 (split_dot ''1.2.3.9'')" by simp
  have d: "split_dot ''1.2.3.4'' \<noteq> split_dot ''1.2.3.9''" by simp
  from compareVersion_first_three [of "''1.2.3.4''" "''1.2.3.4''" "''1.2.3.9''" "''1.2.3.9''"] h d
  show ?thesis by simp
qed


section \<open>Choosing the release: claims\<close>

text \<open>
  On a configuration whose versions are version triples, and with a release version of
  the extension (the test of line 450 succeeds), the item chosen is the first one of
  the sorted list whose \<open>iotWorkbenchMinimalVersion\<close> is not greater than the version of
  the extension: every item in front of it requires a greater version, and when every
  item does, nothing is chosen. The sorted list is a permutation of the items and is in
  descending order of \<open>codeGeneratorVersion\<close>.
\<close>

lemma targetConfigItem_release_triples:
  assumes "isReleaseVersion ext"
    and "\<forall>c \<in> set (codeGeneratorConfigItems config). isVersionTriple (codeGeneratorVersion c)"
  shows "(case targetConfigItem ext (Some config) of
            None \<Rightarrow>
              \<forall>c \<in> set (codeGeneratorConfigItems config).
                0 < compareVersion (iotWorkbenchMinimalVersion c) ext
          | Some t \<Rightarrow>
              \<not> 0 < compareVersion (iotWorkbenchMinimalVersion t) ext \<and>
              (\<exists>before after.
                 sortedConfigItems config = before @ t # after \<and>
                 (\<forall>c \<in> set before. 0 < compareVersion (iotWorkbenchMinimalVersion c) ext))) \<and>
         mset (sortedConfigItems config) = mset (codeGeneratorConfigItems config) \<and>
         sorted_wrt (\<lambda>x y. 0 \<le> compareVersion (codeGeneratorVersion x) (codeGeneratorVersion y))
           (sortedConfigItems config)"
proof (intro conjI)
  show "case targetConfigItem ext (Some config) of
            None \<Rightarrow>
              \<forall>c \<in> set (codeGeneratorConfigItems config).
                0 < compareVersion (iotWorkbenchMinimalVersion c) ext
          | Some t \<Rightarrow>
              \<not> 0 < compareVersion (iotWorkbenchMinimalVersion t) ext \<and>
              (\<exists>before after.
                 sortedConfigItems config = before @ t # after \<and>
                 (\<forall>c \<in> set before. 0 < compareVersion (iotWorkbenchMinimalVersion c) ext))"
  proof (cases "firstCompatible ext (sortedConfigItems config)")
    case None
    then have "\<forall>c \<in> set (sortedConfigItems config).
        0 < compareVersion (iotWorkbenchMinimalVersion c) ext"
      by (simp add: firstCompatible_None)
    with None assms(1) show ?thesis
      by (simp add: targetConfigItem_release_eq set_sortedConfigItems)
  next
    case (Some t)
    from firstCompatible_Some [OF this] Some assms(1) show ?thesis
      by (simp add: targetConfigItem_release_eq)
  qed
  show "mset (sortedConfigItems config) = mset (codeGeneratorConfigItems config)"
    by (rule mset_sortedConfigItems)
  show "sorted_wrt (\<lambda>x y. 0 \<le> compareVersion (codeGeneratorVersion x) (codeGeneratorVersion y))
            (sortedConfigItems config)"
    using assms(2) by (rule sortedConfigItems_descending)
qed

text \<open>
  On a non-empty configuration whose versions are version triples, and with a release
  candidate build (the test of line 450 fails), the item chosen is the head of the
  sorted list: an item that no other item exceeds. The choice is the same for every
  such build, and replacing the \<open>iotWorkbenchMinimalVersion\<close> of the items changes nothing
  but that field of the result: the version of the extension is not compared with it.
\<close>

lemma targetConfigItem_prerelease_triples:
  assumes "\<not> isReleaseVersion ext" and "codeGeneratorConfigItems config \<noteq> []"
    and "\<forall>c \<in> set (codeGeneratorConfigItems config). isVersionTriple (codeGeneratorVersion c)"
  shows "\<exists>t. targetConfigItem ext (Some config) = Some t \<and>
           t \<in> set (codeGeneratorConfigItems config) \<and>
           (\<forall>c \<in> set (codeGeneratorConfigItems config).
              0 \<le> compareVersion (codeGeneratorVersion t) (codeGeneratorVersion c)) \<and>
           (\<forall>ext'. \<not> isReleaseVersion ext' \<longrightarrow> targetConfigItem ext' (Some config) = Some t) \<and>
           (\<forall>g. targetConfigItem ext
                  (Some (config\<lparr>codeGeneratorConfigItems :=
                     map (withMinimalVersion g) (codeGeneratorConfigItems config)\<rparr>)) =
                Some (withMinimalVersion g t))"
proof -
  from assms(2) obtain t rest where s: "sortedConfigItems config = t # rest"
    by (cases "sortedConfigItems config") (simp_all add: sortedConfigItems_Nil_iff)
  have 1: "targetConfigItem ext' (Some config) = Some t" if "\<not> isReleaseVersion ext'" for ext'
    using that by (simp add: targetConfigItem_prerelease_eq s index_0)
  have 2: "t \<in> set (codeGeneratorConfigItems config)"
    using s set_sortedConfigItems [of config] by auto
  have 3: "0 \<le> compareVersion (codeGeneratorVersion t) (codeGeneratorVersion c)"
    if "c \<in> set (codeGeneratorConfigItems config)" for c
    by (rule sortedConfigItems_head_highest [OF assms(3) s that])
  have 4: "targetConfigItem ext
      (Some (config\<lparr>codeGeneratorConfigItems :=
         map (withMinimalVersion g) (codeGeneratorConfigItems config)\<rparr>)) =
      Some (withMinimalVersion g t)" for g
    using assms(1) by (simp add: targetConfigItem_prerelease_eq sortedConfigItems_map s index_0)
  from 1 [OF assms(1)] 1 2 3 4 show ?thesis by blast
qed

text \<open>
  C4. The specification has the release version choose the first candidate, in
  descending version order, that the extension's version reaches. On \<open>preview_config\<close>
  the code does not: the third component of \<open>2.0.0-preview\<close> is \<open>NaN\<close>, so this version
  compares equal to both its neighbours, the sort leaves \<open>2.0.1\<close>, \<open>2.0.0-preview\<close>,
  \<open>2.0.2\<close> in this order, and the scan returns \<open>2.0.1\<close>, although \<open>2.0.2\<close> is
  higher and has the same minimal version \<open>1.0.0\<close>, which the extension \<open>1.5.0\<close>
  reaches. The item returned does pass the gate. The cause is that of C3: a component
  that is not a number is never replaced by \<open>0\<close>.
\<close>

theorem targetConfigItem_release_skips_higher:
  "isReleaseVersion ''1.5.0'' \<and>
   versionComponent ''2.0.0-preview'' 2 = NaN \<and>
   compareVersion ''2.0.0-preview'' ''2.0.1'' = 0 \<and>
   compareVersion ''2.0.2'' ''2.0.0-preview'' = 0 \<and>
   sortedConfigItems preview_config = codeGeneratorConfigItems preview_config \<and>
   targetConfigItem ''1.5.0'' (Some preview_config) = Some (example_item ''2.0.1'' ''1.0.0'') \<and>
   0 \<le> compareVersion ''1.5.0'' ''1.0.0'' \<and>
   compareVersion ''2.0.2'' ''2.0.1'' = 1"
  by (simp add: rel_150 preview_component cmp_preview_201 cmp_202_preview preview_sorted
      preview_target cmp_150_100 cmp_202_201)

text \<open>
  C7. The specification has the release candidate build choose the highest-versioned
  candidate, and the comment of line 449 says that such a build always uses the latest
  version. On \<open>preview_config\<close> the code returns \<open>2.0.1\<close>, the head of the list that the
  sort has left as it was, and \<open>2.0.1\<close> is lower than \<open>2.0.2\<close>. The cause is that of
  C3.
\<close>

theorem targetConfigItem_prerelease_not_highest:
  "\<not> isReleaseVersion ''1.5.0-rc'' \<and>
   codeGeneratorConfigItems preview_config =
     [example_item ''2.0.1'' ''1.0.0'', example_item ''2.0.0-preview'' ''1.0.0'',
      example_item ''2.0.2'' ''1.0.0''] \<and>
   targetConfigItem ''1.5.0-rc'' (Some preview_config) = Some (example_item ''2.0.1'' ''1.0.0'') \<and>
   compareVersion ''2.0.1'' ''2.0.2'' = - 1"
proof -
  have items: "codeGeneratorConfigItems preview_config =
     [example_item ''2.0.1'' ''1.0.0'', example_item ''2.0.0-preview'' ''1.0.0'',
      example_item ''2.0.2'' ''1.0.0'']"
    by (simp add: preview_config_def)
  show ?thesis
    by (intro conjI) (fact rel_rc items preview_target_rc cmp_201_202)+
qed

text \<open>
  C8. Nothing is chosen when there is no configuration or when its list is empty, for
  every version of the extension. In general nothing is chosen exactly when, for a
  release version, every item requires a greater version of the extension, and, for a
  release candidate build, the list is empty. In that case \<open>UpgradeCodeGenerator\<close>
  prints that no updated version was found and returns \<open>false\<close>; it throws nothing.
\<close>

theorem targetConfigItem_none:
  "targetConfigItem ext None = None \<and>
   targetConfigItem ext (Some (config\<lparr>codeGeneratorConfigItems := []\<rparr>)) = None \<and>
   (targetConfigItem ext (Some config) = None \<longleftrightarrow>
      (if isReleaseVersion ext
       then \<forall>c \<in> set (codeGeneratorConfigItems config).
              0 < compareVersion (iotWorkbenchMinimalVersion c) ext
       else codeGeneratorConfigItems config = [])) \<and>
   (configResponse e = Some codeGenConfig \<and>
    targetConfigItem (extensionVersion e) codeGenConfig = None \<longrightarrow>
    UpgradeCodeGenerator e w =
      (Inr False, appendLine UnableToGetUpdatedVersion (record_call RequestConfig w)))"
proof (intro conjI impI)
  show "targetConfigItem ext None = None" by (simp add: targetConfigItem_def)
  show "targetConfigItem ext (Some (config\<lparr>codeGeneratorConfigItems := []\<rparr>)) = None"
    by (simp add: targetConfigItem_def sortedConfigItems_def index_def)
  show "targetConfigItem ext (Some config) = None \<longleftrightarrow>
      (if isReleaseVersion ext
       then \<forall>c \<in> set (codeGeneratorConfigItems config).
              0 < compareVersion (iotWorkbenchMinimalVersion c) ext
       else codeGeneratorConfigItems config = [])"
  proof (cases "isReleaseVersion ext")
    case True
    then show ?thesis
      by (simp add: targetConfigItem_release_eq firstCompatible_None set_sortedConfigItems)
  next
    case False
    then show ?thesis
      by (simp add: targetConfigItem_prerelease_eq index_0 sortedConfigItems_Nil_iff [symmetric]
          split: list.splits)
  qed
  assume "configResponse e = Some codeGenConfig \<and>
    targetConfigItem (extensionVersion e) codeGenConfig = None"
  then show "UpgradeCodeGenerator e w =
      (Inr False, appendLine UnableToGetUpdatedVersion (record_call RequestConfig w))"
    by (simp add: UpgradeCodeGenerator_def Let_def)
qed

theorem targetConfigItem_none_witness:
  "isReleaseVersion ''0.9.0'' \<and>
   0 < compareVersion ''1.0.0'' ''0.9.0'' \<and> 0 < compareVersion ''9.9.9'' ''0.9.0'' \<and>
   targetConfigItem ''0.9.0'' (Some example_config) = None \<and>
   UpgradeCodeGenerator (example_env ''0.9.0'' ''abc123'') example_world =
     (Inr False, appendLine UnableToGetUpdatedVersion (record_call RequestConfig example_world))"
proof -
  note n = targetConfigItem_none [of "''0.9.0''" example_config
      "example_env ''0.9.0'' ''abc123''" "Some example_config" example_world]
  have g1: "0 < compareVersion ''1.0.0'' ''0.9.0''" and g2: "0 < compareVersion ''9.9.9'' ''0.9.0''"
    by (simp_all add: cmp_100_090 cmp_999_090)
  from n rel_090 g1 g2 have none: "targetConfigItem ''0.9.0'' (Some example_config) = None"
    by (simp add: example_config_def example_item_def)
  have "configResponse (example_env ''0.9.0'' ''abc123'') = Some (Some example_config)"
    and "extensionVersion (example_env ''0.9.0'' ''abc123'') = ''0.9.0''"
    by (simp_all add: example_env_def)
  with n none have run: "UpgradeCodeGenerator (example_env ''0.9.0'' ''abc123'') example_world =
     (Inr False, appendLine UnableToGetUpdatedVersion (record_call RequestConfig example_world))"
    by simp
  show ?thesis by (intro conjI) (fact rel_090 g1 g2 none run)+
qed


section \<open>The upgrade flow: claims\<close>

text \<open>
  The scenario of the specification: the package is announced with the digest
  \<open>abc123\<close> and the download has the digest \<open>xyz999\<close>. The run throws the hash error, and
  the scratch file is still there, with the downloaded content: nothing in
  \<open>UpgradeCodeGenerator\<close> removes it, on this path or on any other.
\<close>

theorem scratch_file_kept_counterexample:
  "fst (UpgradeCodeGenerator (example_env ''1.5.0'' ''xyz999'') example_world) = Inl IntegrityError \<and>
   files (snd (UpgradeCodeGenerator (example_env ''1.5.0'' ''xyz999'') example_world))
     ''/tmp/iotworkbench/abc123.zip'' = Some (File ''zip-bytes'')"
  by (simp add: UpgradeCodeGenerator_def example_env_def example_target Let_def)
     (simp add: needUpgrade_def upgradeTask_def upgradeTry_def downloadLocation_def flow_defs
        example_world_def example_item_def example_location_def Let_def)

text \<open>
  C1, as the code has it. When an upgrade is due, the package is downloaded and written
  to the scratch file, and its digest differs from the announced one, the run throws
  the hash error. The final state is the initial one with the scratch file holding the
  download, the lines printed up to the validation step and the empty line of the
  \<open>catch\<close> block, and four calls to the outside: the two requests, the write and the
  hash. The extractor is not called, the tool directory and the stored version are
  untouched, and the scratch file stays.
\<close>

theorem hash_mismatch_fails_before_extraction:
  assumes "configResponse e = Some codeGenConfig"
    and "targetConfigItem (extensionVersion e) codeGenConfig = Some target"
    and "needUpgrade e target (record_call RequestConfig w)"
    and "downloadLocation e target = (uri, md5value)"
    and "packageResponse e uri = Some zipData"
    and "canWrite e (files w) (pathJoin e (tempPath e) (md5value @ ''.zip''))"
    and "md5hex e zipData \<noteq> md5value"
  shows "UpgradeCodeGenerator e w =
     (Inl IntegrityError,
      w\<lparr>files := (files w)(pathJoin e (tempPath e) (md5value @ ''.zip'') \<mapsto> File zipData),
        channel := channel w @ [StartUpgrading, Step1Downloading, DownloadComplete,
                                Step2ValidatingHash, EmptyLine],
        calls := calls w @ [RequestConfig, RequestPackage uri,
                            WriteFile (pathJoin e (tempPath e) (md5value @ ''.zip'')),
                            HashFile (pathJoin e (tempPath e) (md5value @ ''.zip''))]\<rparr>)"
proof -
  let ?w0 = "appendLine StartUpgrading (record_call RequestConfig w)"
  have "canWrite e (files ?w0) (pathJoin e (tempPath e) (md5value @ ''.zip''))"
    using assms(6) by (simp add: flow_defs)
  from upgradeTry_mismatch [OF assms(4,5) this assms(7)]
  show ?thesis
    using assms(1,2,3) by (simp add: UpgradeCodeGenerator_def upgradeTask_def Let_def flow_defs)
qed

theorem hash_mismatch_fails_before_extraction_witness:
  "UpgradeCodeGenerator (example_env ''1.5.0'' ''xyz999'') example_world =
     (Inl IntegrityError,
      example_world\<lparr>files := (files example_world)(''/tmp/iotworkbench/abc123.zip'' \<mapsto> File ''zip-bytes''),
        channel := [StartUpgrading, Step1Downloading, DownloadComplete,
                    Step2ValidatingHash, EmptyLine],
        calls := [RequestConfig, RequestPackage ''https://host/ubuntu.zip'',
                  WriteFile ''/tmp/iotworkbench/abc123.zip'',
                  HashFile ''/tmp/iotworkbench/abc123.zip'']\<rparr>)"
proof -
  let ?e = "example_env ''1.5.0'' ''xyz999''"
  let ?t = "example_item ''1.3.0'' ''1.0.0''"
  have 1: "configResponse ?e = Some (Some example_config)"
    by (simp add: example_env_def)
  have 2: "targetConfigItem (extensionVersion ?e) (Some example_config) = Some ?t"
    by (simp add: example_env_def example_target)
  have 3: "needUpgrade ?e ?t (record_call RequestConfig example_world)"
    by (simp add: needUpgrade_def flow_defs example_defs)
  have 4: "downloadLocation ?e ?t = (''https://host/ubuntu.zip'', ''abc123'')"
    by (simp add: downloadLocation_def example_defs)
  have 5: "packageResponse ?e ''https://host/ubuntu.zip'' = Some ''zip-bytes''"
    by (simp add: example_env_def)
  have 6: "canWrite ?e (files example_world) (pathJoin ?e (tempPath ?e) (''abc123'' @ ''.zip''))"
    by (simp add: example_env_def)
  have 7: "md5hex ?e ''zip-bytes'' \<noteq> ''abc123''"
    by (simp add: example_env_def)
  from hash_mismatch_fails_before_extraction [OF 1 2 3 4 5 6 7]
  show ?thesis by (simp add: example_env_def example_world_def)
qed

text \<open>
  C2. A run that does not return \<open>true\<close> (an error thrown at any step, or no release
  chosen) leaves the stored version as it was and makes no call that stores a version.
  When the stored version has changed, the run returned \<open>true\<close>, the package was
  downloaded, its digest was the announced one, the extractor reported success on the
  file system holding the scratch file, the files are those the extractor left, and
  storing the version of the chosen release was the last call, right after the
  extraction.
\<close>

theorem version_written_only_after_extraction:
  assumes "UpgradeCodeGenerator e w = (r, w')"
  shows "(r \<noteq> Inr True \<longrightarrow>
            storedVersion w' = storedVersion w \<and>
            (\<exists>new. calls w' = calls w @ new \<and> (\<forall>v. UpdateVersion v \<notin> set new))) \<and>
         (storedVersion w' \<noteq> storedVersion w \<longrightarrow>
            (\<exists>codeGenConfig target uri md5value zipData fs'.
               r = Inr True \<and>
               configResponse e = Some codeGenConfig \<and>
               targetConfigItem (extensionVersion e) codeGenConfig = Some target \<and>
               downloadLocation e target = (uri, md5value) \<and>
               packageResponse e uri = Some zipData \<and>
               md5hex e zipData = md5value \<and>
               extractzip e (pathJoin e (tempPath e) (md5value @ ''.zip'')) (codeGenCommandPath e)
                 ((files w)(pathJoin e (tempPath e) (md5value @ ''.zip'') \<mapsto> File zipData)) =
                 (fs', True) \<and>
               files w' = fs' \<and>
               storedVersion w' = Some (codeGeneratorVersion target) \<and>
               calls w' = calls w @
                 [RequestConfig, RequestPackage uri,
                  WriteFile (pathJoin e (tempPath e) (md5value @ ''.zip'')),
                  HashFile (pathJoin e (tempPath e) (md5value @ ''.zip'')),
                  ExtractZip (pathJoin e (tempPath e) (md5value @ ''.zip'')) (codeGenCommandPath e),
                  UpdateVersion (codeGeneratorVersion target)]))"
  using assms
proof (cases rule: UpgradeCodeGenerator_cases)
  case rejected
  then show ?thesis by (simp add: flow_defs)
next
  case (no_target codeGenConfig)
  then show ?thesis by (simp add: flow_defs)
next
  case (current codeGenConfig target)
  then show ?thesis by (simp add: flow_defs)
next
  case (failed codeGenConfig target err)
  from upgradeTask_error [OF failed(4)] obtain new where
    "storedVersion w' = storedVersion w" 
    "calls w' = calls w @ RequestConfig # new" "\<forall>v. UpdateVersion v \<notin> set new"
    by (auto simp: flow_defs)
  with failed(5) show ?thesis by simp
next
  case (upgraded codeGenConfig target w1)
  obtain uri md5value where d: "downloadLocation e target = (uri, md5value)"
    by (cases "downloadLocation e target")
  from upgradeTask_success [OF upgraded(4) d] obtain zipData fs' where
    "packageResponse e uri = Some zipData" "md5hex e zipData = md5value"
    "extractzip e (pathJoin e (tempPath e) (md5value @ ''.zip'')) (codeGenCommandPath e)
       ((files w)(pathJoin e (tempPath e) (md5value @ ''.zip'') \<mapsto> File zipData)) = (fs', True)"
    "files w1 = fs'" "storedVersion w1 = Some (codeGeneratorVersion target)"
    "calls w1 = calls w @
       [RequestConfig, RequestPackage uri,
        WriteFile (pathJoin e (tempPath e) (md5value @ ''.zip'')),
        HashFile (pathJoin e (tempPath e) (md5value @ ''.zip'')),
        ExtractZip (pathJoin e (tempPath e) (md5value @ ''.zip'')) (codeGenCommandPath e),
        UpdateVersion (codeGeneratorVersion target)]"
    by (auto simp: flow_defs)
  with upgraded(1,2,5,6) d show ?thesis by (simp add: flow_defs)
qed

theorem version_written_only_after_extraction_witness:
  "fst (UpgradeCodeGenerator (example_env ''1.5.0'' ''xyz999'') example_world) = Inl IntegrityError \<and>
   storedVersion (snd (UpgradeCodeGenerator (example_env ''1.5.0'' ''xyz999'') example_world)) =
     Some ''1.2.0'' \<and>
   UpgradeCodeGenerator (example_env ''1.5.0'' ''abc123'') example_world =
     (Inr True, example_installed) \<and>
   storedVersion example_installed \<noteq> storedVersion example_world \<and>
   (\<exists>target. targetConfigItem ''1.5.0'' (Some example_config) = Some target \<and>
      storedVersion example_installed = Some (codeGeneratorVersion target)) \<and>
   (\<exists>new uri zip. calls example_installed =
      calls example_world @ new @ [ExtractZip zip ''/home/user/tool'', UpdateVersion ''1.3.0''] \<and>
      new = [RequestConfig, RequestPackage uri, WriteFile zip, HashFile zip])"
proof -
  let ?bad = "UpgradeCodeGenerator (example_env ''1.5.0'' ''xyz999'') example_world"
  have b1: "fst ?bad = Inl IntegrityError" by (simp add: example_mismatch_run)
  have "?bad = (fst ?bad, snd ?bad)" by simp
  from version_written_only_after_extraction [OF this] b1
  have "storedVersion (snd ?bad) = storedVersion example_world" by simp
  then have b2: "storedVersion (snd ?bad) = Some ''1.2.0''" by (simp add: example_world_def)
  have changed: "storedVersion example_installed \<noteq> storedVersion example_world"
    by (simp add: example_installed_def example_world_def)
  from version_written_only_after_extraction [OF example_success_run] changed
  obtain codeGenConfig target uri md5value where
    c: "configResponse (example_env ''1.5.0'' ''abc123'') = Some codeGenConfig"
    and t: "targetConfigItem (extensionVersion (example_env ''1.5.0'' ''abc123'')) codeGenConfig = Some target"
    and v: "storedVersion example_installed = Some (codeGeneratorVersion target)"
    and k: "calls example_installed = calls example_world @
       [RequestConfig, RequestPackage uri,
        WriteFile (pathJoin (example_env ''1.5.0'' ''abc123'') (tempPath (example_env ''1.5.0'' ''abc123''))
           (md5value @ ''.zip'')),
        HashFile (pathJoin (example_env ''1.5.0'' ''abc123'') (tempPath (example_env ''1.5.0'' ''abc123''))
           (md5value @ ''.zip'')),
        ExtractZip (pathJoin (example_env ''1.5.0'' ''abc123'') (tempPath (example_env ''1.5.0'' ''abc123''))
           (md5value @ ''.zip'')) (codeGenCommandPath (example_env ''1.5.0'' ''abc123'')),
        UpdateVersion (codeGeneratorVersion target)]"
    by blast
  from c t have t': "targetConfigItem ''1.5.0'' (Some example_config) = Some target"
    by (simp add: example_env_def)
  then have "target = example_item ''1.3.0'' ''1.0.0''" by (simp add: example_target)
  with k have k': "\<exists>new uri zip. calls example_installed =
      calls example_world @ new @ [ExtractZip zip ''/home/user/tool'', UpdateVersion ''1.3.0''] \<and>
      new = [RequestConfig, RequestPackage uri, WriteFile zip, HashFile zip]"
    by (simp add: example_env_def example_item_def)
  from t' v have v': "\<exists>target. targetConfigItem ''1.5.0'' (Some example_config) = Some target \<and>
      storedVersion example_installed = Some (codeGeneratorVersion target)"
    by blast
  show ?thesis
    by (intro conjI) (fact b1 b2 example_success_run changed v' k')+
qed

text \<open>
  C9. After a run that returned \<open>true\<close>, a second run in the same environment only
  asks for the configuration again and returns \<open>true\<close>: the files, the stored version,
  the channel and the messages are those the first run left, and no package is
  requested, no file written or hashed, nothing extracted and no version stored. The
  environment is one where the extractor, when it reports success, has created the
  tool directory, and where no version that the configuration offers is the empty
  string (a version triple never is: \<open>isVersionTriple_nonempty\<close>).
\<close>

theorem second_run_is_noop:
  assumes first: "UpgradeCodeGenerator e w = (Inr True, w1)"
    and dir: "\<forall>sourceZip fs fs'. extractzip e sourceZip (codeGenCommandPath e) fs = (fs', True) \<longrightarrow>
                fs' (codeGenCommandPath e) = Some Directory"
    and nonempty: "\<forall>config. configResponse e = Some (Some config) \<longrightarrow>
                (\<forall>item \<in> set (codeGeneratorConfigItems config).
                   codeGeneratorVersion item \<noteq> [])"
  shows "UpgradeCodeGenerator e w1 = (Inr True, record_call RequestConfig w1)"
  using first
proof (cases rule: UpgradeCodeGenerator_cases)
  case (current codeGenConfig target)
  from current(3,5) have "\<not> needUpgrade e target (record_call RequestConfig w1)"
    using needUpgrade_cong [of "record_call RequestConfig w1" "record_call RequestConfig w" e target]
    by (simp add: flow_defs)
  with current(1,2) show ?thesis by (simp add: UpgradeCodeGenerator_def Let_def)
next
  case (upgraded codeGenConfig target w2)
  obtain uri md5value where d: "downloadLocation e target = (uri, md5value)"
    by (cases "downloadLocation e target")
  from upgradeTask_success [OF upgraded(4) d] obtain zipData fs' where
    x: "extractzip e (pathJoin e (tempPath e) (md5value @ ''.zip'')) (codeGenCommandPath e)
       ((files w)(pathJoin e (tempPath e) (md5value @ ''.zip'') \<mapsto> File zipData)) = (fs', True)"
    and f: "files w2 = fs'" and v: "storedVersion w2 = Some (codeGeneratorVersion target)"
    by (auto simp: flow_defs)
  from dir x have isdir: "fs' (codeGenCommandPath e) = Some Directory" by blast
  from upgraded(2) obtain config where c: "codeGenConfig = Some config"
    by (cases codeGenConfig) (simp_all add: targetConfigItem_def)
  from upgraded(2) c have "target \<in> set (codeGeneratorConfigItems config)"
    by (simp add: targetConfigItem_in_set)
  with nonempty upgraded(1) c have ne: "codeGeneratorVersion target \<noteq> []" by blast
  have "\<not> needUpgrade e target (record_call RequestConfig w1)"
    using isdir f v ne upgraded(6)
    by (simp add: needUpgrade_def flow_defs compareVersion_refl)
  with upgraded(1,2) show ?thesis by (simp add: UpgradeCodeGenerator_def Let_def)
qed simp_all

theorem second_run_is_noop_witness:
  "UpgradeCodeGenerator (example_env ''1.5.0'' ''abc123'') example_world =
     (Inr True, example_installed) \<and>
   UpgradeCodeGenerator (example_env ''1.5.0'' ''abc123'') example_installed =
     (Inr True, record_call RequestConfig example_installed) \<and>
   files (record_call RequestConfig example_installed) = files example_installed \<and>
   storedVersion (record_call RequestConfig example_installed) = Some ''1.3.0''"
proof -
  let ?e = "example_env ''1.5.0'' ''abc123''"
  have dir: "\<forall>sourceZip fs fs'. extractzip ?e sourceZip (codeGenCommandPath ?e) fs = (fs', True) \<longrightarrow>
      fs' (codeGenCommandPath ?e) = Some Directory"
    by (auto simp: example_env_def)
  have nonempty: "\<forall>config. configResponse ?e = Some (Some config) \<longrightarrow>
      (\<forall>item \<in> set (codeGeneratorConfigItems config). codeGeneratorVersion item \<noteq> [])"
    by (auto simp: example_env_def example_config_def example_item_def)
  note second = second_run_is_noop [OF example_success_run dir nonempty]
  have f: "files (record_call RequestConfig example_installed) = files example_installed"
    and v: "storedVersion (record_call RequestConfig example_installed) = Some ''1.3.0''"
    by (simp_all add: record_call_def example_installed_def)
  show ?thesis
    by (intro conjI) (fact example_success_run second f v)+
qed


end
